theory Spec2Isabelle
  imports Main "HOL-Library.Sublist"
begin

section \<open>Characters and strings\<close>

text \<open>
  A Python \<open>str\<close> is modelled as a \<open>string\<close>. The model is one of ASCII text: case
  conversion, white space and the word characters below are Python's on the code points
  below 128, and say nothing of the others (Python folds the case of letters outside
  ASCII, and counts some characters outside ASCII as white space or as word
  characters). A statement that rests on them is made of ASCII text only, by the
  hypothesis \<open>ascii_text\<close>.
\<close>

definition is_ascii :: "char \<Rightarrow> bool" where
  "is_ascii c = ((of_char c :: nat) < 128)"

definition ascii_text :: "string \<Rightarrow> bool" where
  "ascii_text s = list_all is_ascii s"

definition is_upper :: "char \<Rightarrow> bool" where
  "is_upper c = (65 \<le> (of_char c :: nat) \<and> (of_char c :: nat) \<le> 90)"

definition is_lower :: "char \<Rightarrow> bool" where
  "is_lower c = (97 \<le> (of_char c :: nat) \<and> (of_char c :: nat) \<le> 122)"

definition is_digit :: "char \<Rightarrow> bool" where
  "is_digit c = (48 \<le> (of_char c :: nat) \<and> (of_char c :: nat) \<le> 57)"

definition is_alnum :: "char \<Rightarrow> bool" where
  "is_alnum c = (is_upper c \<or> is_lower c \<or> is_digit c)"

text \<open>\<open>str.isspace\<close> on ASCII: tab, line feed, vertical tab, form feed, carriage
  return, the four separators 0x1C..0x1F and the space.\<close>

definition is_space :: "char \<Rightarrow> bool" where
  "is_space c = ((9 \<le> (of_char c :: nat) \<and> (of_char c :: nat) \<le> 13)
     \<or> (28 \<le> (of_char c :: nat) \<and> (of_char c :: nat) \<le> 32))"

definition lower_char :: "char \<Rightarrow> char" where
  "lower_char c = (if is_upper c then char_of ((of_char c :: nat) + 32) else c)"

definition upper_char :: "char \<Rightarrow> char" where
  "upper_char c = (if is_lower c then char_of ((of_char c :: nat) - 32) else c)"

text \<open>\<open>str.lower()\<close> and \<open>str.upper()\<close>.\<close>

definition lower :: "string \<Rightarrow> string" where
  "lower s = map lower_char s"

definition upper :: "string \<Rightarrow> string" where
  "upper s = map upper_char s"

text \<open>\<open>str.endswith\<close>.\<close>

definition endswith :: "string \<Rightarrow> string \<Rightarrow> bool" where
  "endswith s suf = suffix suf s"

text \<open>\<open>str.strip()\<close> with no argument removes white space at both ends;
  \<open>str.rstrip()\<close> at the right end only.\<close>

definition lstrip :: "string \<Rightarrow> string" where
  "lstrip s = dropWhile is_space s"

definition rstrip :: "string \<Rightarrow> string" where
  "rstrip s = rev (dropWhile is_space (rev s))"

definition strip :: "string \<Rightarrow> string" where
  "strip s = lstrip (rstrip s)"

text \<open>\<open>str.replace(old, new)\<close> for an \<open>old\<close> of one character, the only use the
  program makes of it.\<close>

definition replace_char :: "char \<Rightarrow> string \<Rightarrow> string \<Rightarrow> string" where
  "replace_char old new s = concat (map (\<lambda>c. if c = old then new else [c]) s)"

definition backslash :: char where
  "backslash = CHR 0x5C"

definition dquote :: char where
  "dquote = CHR 0x22"

definition newline :: char where
  "newline = CHR 0x0A"

section \<open>The regular expressions the program builds\<close>

text \<open>
  The program hands \<open>re.compile\<close> only patterns of the shape \<open>re.escape(w)\<close> and
  \<open>r'\b' + re.escape(w) + r'\b'\<close>, always with \<open>re.IGNORECASE\<close>. The model covers
  the fragment of the pattern language these lie in: literal characters, a backslash
  before a character that is not alphanumeric (that character, literally), the dot and
  \<open>\b\<close>. A pattern outside the fragment has no parse (\<open>None\<close>).
\<close>

datatype atom = Lit char | AnyChar | WordBoundary

text \<open>\<open>re.escape\<close> (Python 3.7 and later) puts a backslash before each of the
  characters \<open>()[]{}?*+-|^$\.&~#\<close>, the space, and tab, line feed, carriage
  return, vertical tab and form feed.\<close>

definition re_special :: "char \<Rightarrow> bool" where
  "re_special c = (c \<in> set (''()[]{}?*+-|^$.&~# '' @
      [backslash, CHR 0x09, CHR 0x0A, CHR 0x0D, CHR 0x0B, CHR 0x0C]))"

definition re_escape :: "string \<Rightarrow> string" where
  "re_escape s = concat (map (\<lambda>c. if re_special c then [backslash, c] else [c]) s)"

definition re_meta :: "char \<Rightarrow> bool" where
  "re_meta c = (c \<in> set ''()[]{}?*+|^$'')"

fun re_parse :: "string \<Rightarrow> atom list option" where
  "re_parse [] = Some []"
| "re_parse [c] =
     (if c = backslash then None
      else if c = CHR ''.'' then Some [AnyChar]
      else if re_meta c then None
      else Some [Lit c])"
| "re_parse (c # d # ds) =
     (if c = backslash then
        (if d = CHR ''b'' then map_option ((#) WordBoundary) (re_parse ds)
         else if is_alnum d then None
         else map_option ((#) (Lit d)) (re_parse ds))
      else if c = CHR ''.'' then map_option ((#) AnyChar) (re_parse (d # ds))
      else if re_meta c then None
      else map_option ((#) (Lit c)) (re_parse (d # ds)))"

text \<open>A compiled pattern: its atoms and whether \<open>re.IGNORECASE\<close> was given.\<close>

datatype pattern = Pattern (atoms: "atom list") (ignorecase: bool)

definition re_compile :: "string \<Rightarrow> bool \<Rightarrow> pattern option" where
  "re_compile src ic = map_option (\<lambda>as. Pattern as ic) (re_parse src)"

text \<open>\<open>\w\<close> on ASCII text: letters, digits and the underscore.\<close>

definition is_word :: "char \<Rightarrow> bool" where
  "is_word c = (is_alnum c \<or> c = CHR ''_'')"

definition lit_eq :: "bool \<Rightarrow> char \<Rightarrow> char \<Rightarrow> bool" where
  "lit_eq ic c d = (if ic then lower_char c = lower_char d else c = d)"

text \<open>\<open>\b\<close> holds between a word character and a non-word character, the two ends of
  the text counting as non-word. \<open>prev\<close> is the character before the position.\<close>

definition at_boundary :: "char option \<Rightarrow> string \<Rightarrow> bool" where
  "at_boundary prev s =
     ((case prev of None \<Rightarrow> False | Some p \<Rightarrow> is_word p)
        \<noteq> (case s of [] \<Rightarrow> False | d # _ \<Rightarrow> is_word d))"

text \<open>The match of the atoms at one position: the number of characters it takes. The
  fragment has no choice and no repetition, so there is at most one.\<close>

fun match_here :: "bool \<Rightarrow> atom list \<Rightarrow> char option \<Rightarrow> string \<Rightarrow> nat option" where
  "match_here ic [] prev s = Some 0"
| "match_here ic (Lit c # as) prev [] = None"
| "match_here ic (Lit c # as) prev (d # s) =
     (if lit_eq ic c d then map_option Suc (match_here ic as (Some d) s) else None)"
| "match_here ic (AnyChar # as) prev [] = None"
| "match_here ic (AnyChar # as) prev (d # s) =
     (if d \<noteq> newline then map_option Suc (match_here ic as (Some d) s) else None)"
| "match_here ic (WordBoundary # as) prev s =
     (if at_boundary prev s then match_here ic as prev s else None)"

text \<open>\<open>pattern.search\<close>: is there a match at some position, scanning left to right.\<close>

fun search_from :: "bool \<Rightarrow> atom list \<Rightarrow> char option \<Rightarrow> string \<Rightarrow> bool" where
  "search_from ic as prev [] = (match_here ic as prev [] \<noteq> None)"
| "search_from ic as prev (d # s) =
     (match_here ic as prev (d # s) \<noteq> None \<or> search_from ic as (Some d) s)"

definition re_search :: "pattern \<Rightarrow> string \<Rightarrow> bool" where
  "re_search p s = search_from (ignorecase p) (atoms p) None s"

section \<open>compile_keyword_patterns and the line predicate\<close>

text \<open>\<open>[re.compile(re.escape(keyword), re.IGNORECASE) for keyword in keywords]\<close>;
  \<open>None\<close> stands for \<open>re.error\<close>.\<close>

fun compile_keyword_patterns :: "string list \<Rightarrow> pattern list option" where
  "compile_keyword_patterns [] = Some []"
| "compile_keyword_patterns (k # ks) =
     (case re_compile (re_escape k) True of
        None \<Rightarrow> None
      | Some p \<Rightarrow> map_option ((#) p) (compile_keyword_patterns ks))"

text \<open>\<open>any(pattern.search(line) for pattern in keyword_patterns)\<close>.\<close>

definition line_matches :: "pattern list \<Rightarrow> string \<Rightarrow> bool" where
  "line_matches ps line = list_ex (\<lambda>p. re_search p line) ps"


section \<open>highlight_text\<close>

text \<open>
  \<open>pattern.sub(template, text)\<close> replaces the matches found scanning left to right,
  none overlapping another. Both templates of the program have the shape
  \<open>before + '\g<0>' + after\<close> with no other backslash, so a replacement is a function
  of the matched text. An empty match (the pattern of the empty term) is replaced at
  every position.
\<close>

fun sub_from :: "bool \<Rightarrow> atom list \<Rightarrow> (string \<Rightarrow> string) \<Rightarrow> char option \<Rightarrow> string \<Rightarrow> string" where
  "sub_from ic as f prev [] =
     (case match_here ic as prev [] of None \<Rightarrow> [] | Some _ \<Rightarrow> f [])"
| "sub_from ic as f prev (d # s) =
     (case match_here ic as prev (d # s) of
        None \<Rightarrow> d # sub_from ic as f (Some d) s
      | Some 0 \<Rightarrow> f [] @ d # sub_from ic as f (Some d) s
      | Some (Suc n) \<Rightarrow>
          f (take (Suc n) (d # s))
            @ sub_from ic as f (Some (last (take (Suc n) (d # s)))) (drop n s))"

definition re_sub :: "pattern \<Rightarrow> (string \<Rightarrow> string) \<Rightarrow> string \<Rightarrow> string" where
  "re_sub p f s = sub_from (ignorecase p) (atoms p) f None s"

text \<open>The constants of \<open>class Colors\<close>, and the escape sequence each stands for.\<close>

datatype colors = GREEN | RED | BLUE | YELLOW | RESET

fun ansi :: "colors \<Rightarrow> string" where
  "ansi GREEN = CHR 0x1B # ''[92m''"
| "ansi RED = CHR 0x1B # ''[91m''"
| "ansi BLUE = CHR 0x1B # ''[94m''"
| "ansi YELLOW = CHR 0x1B # ''[93m''"
| "ansi RESET = CHR 0x1B # ''[0m''"

text \<open>A \<open>dict\<close> is the list of its items in insertion order, the keys distinct.\<close>

type_synonym ('k, 'v) dict = "('k \<times> 'v) list"

text \<open>\<open>result.replace('&', '&amp;').replace('<', '&lt;').replace('>', '&gt;')\<close>.\<close>

definition html_escape :: "string \<Rightarrow> string" where
  "html_escape s =
     replace_char (CHR ''>'') ''&gt;''
       (replace_char (CHR ''<'') ''&lt;''
         (replace_char (CHR ''&'') ''&amp;'' s))"

text \<open>\<open>sorted(highlight_words.items(), key=lambda x: len(x[0]), reverse=True)\<close>: the
  sort is stable, and \<open>reverse=True\<close> reverses the list before and after sorting, so
  terms of one length keep their order.\<close>

definition sorted_items :: "(string, 'v) dict \<Rightarrow> (string \<times> 'v) list" where
  "sorted_items items = rev (sort_key (\<lambda>x. length (fst x)) (rev items))"

text \<open>The pattern of one term (lines 231 to 234); \<open>None\<close> stands for \<open>re.error\<close>.\<close>

definition term_pattern :: "string \<Rightarrow> pattern option" where
  "term_pattern word =
     (if lower word \<in> set [''match'', ''mismatch''] \<and> CHR '' '' \<notin> set word
      then re_compile ([backslash, CHR ''b''] @ re_escape word @ [backslash, CHR ''b'']) True
      else re_compile (re_escape word) True)"

text \<open>The CSS class of one term (lines 238 to 246).\<close>

definition css_class :: "string \<Rightarrow> string" where
  "css_class word =
     (if lower word = ''match'' \<and> CHR '' '' \<notin> set word then ''match''
      else if lower word = ''mismatch'' then ''mismatch''
      else if sublist ''configuration'' (lower word) then ''configuration''
      else ''highlight'')"

text \<open>The two templates, as functions of the matched text.\<close>

definition span :: "string \<Rightarrow> string \<Rightarrow> string" where
  "span cls m = ''<span class='' @ [dquote] @ cls @ [dquote] @ ''>'' @ m @ ''</span>''"

definition colored :: "colors \<Rightarrow> string \<Rightarrow> string" where
  "colored color m = ansi color @ m @ ansi RESET"

text \<open>One turn of the loop over the sorted items.\<close>

definition highlight_word :: "bool \<Rightarrow> string \<Rightarrow> string \<times> colors \<Rightarrow> string option" where
  "highlight_word html_mode result item =
     (case term_pattern (fst item) of
        None \<Rightarrow> None
      | Some p \<Rightarrow>
          Some (if html_mode then re_sub p (span (css_class (fst item))) result
                else re_sub p (colored (snd item)) result))"

fun highlight_loop :: "bool \<Rightarrow> (string \<times> colors) list \<Rightarrow> string \<Rightarrow> string option" where
  "highlight_loop html_mode [] result = Some result"
| "highlight_loop html_mode (item # items) result =
     (case highlight_word html_mode result item of
        None \<Rightarrow> None
      | Some result' \<Rightarrow> highlight_loop html_mode items result')"

text \<open>\<open>highlight_words\<close> may be \<open>None\<close>; \<open>not highlight_words\<close> holds for \<open>None\<close> and
  for the empty dict.\<close>

definition highlight_text :: "string \<Rightarrow> (string, colors) dict option \<Rightarrow> bool \<Rightarrow> string option" where
  "highlight_text text highlight_words html_mode =
     (case highlight_words of
        None \<Rightarrow> Some text
      | Some items \<Rightarrow>
          if items = [] then Some text
          else highlight_loop html_mode (sorted_items items)
                 (if html_mode then html_escape text else text))"

section \<open>Paths\<close>

text \<open>\<open>os.path\<close> with the separator \<open>/\<close> (\<open>posixpath\<close>).\<close>

definition is_sep :: "char \<Rightarrow> bool" where
  "is_sep c = (c = CHR ''/'')"

text \<open>\<open>basename\<close>: what follows the last separator.\<close>

definition basename :: "string \<Rightarrow> string" where
  "basename p = rev (takeWhile (\<lambda>c. \<not> is_sep c) (rev p))"

text \<open>\<open>dirname\<close>: what precedes the base name, without its trailing separators unless
  it consists of separators only.\<close>

definition dirname :: "string \<Rightarrow> string" where
  "dirname p =
     (let head = rev (dropWhile (\<lambda>c. \<not> is_sep c) (rev p))
      in if head \<noteq> [] \<and> \<not> list_all is_sep head
         then rev (dropWhile is_sep (rev head)) else head)"

text \<open>\<open>splitext\<close>: the extension starts at the last dot of the base name, provided a
  character other than a dot stands before it in the base name.\<close>

definition splitext :: "string \<Rightarrow> string \<times> string" where
  "splitext p =
     (let name = basename p;
          after_dot = rev (takeWhile (\<lambda>c. c \<noteq> CHR ''.'') (rev name));
          stem = take (length name - Suc (length after_dot)) name;
          cut = length p - Suc (length after_dot)
      in if CHR ''.'' \<in> set name \<and> list_ex (\<lambda>c. c \<noteq> CHR ''.'') stem
         then (take cut p, drop cut p) else (p, []))"

text \<open>\<open>join\<close> of two components.\<close>

definition join :: "string \<Rightarrow> string \<Rightarrow> string" where
  "join a b =
     (if b \<noteq> [] \<and> is_sep (hd b) then b
      else if a = [] \<or> is_sep (last a) then a @ b
      else a @ ''/'' @ b)"

text \<open>A path lies inside a directory when it extends the directory's path by a
  separator and more.\<close>

definition inside :: "string \<Rightarrow> string \<Rightarrow> bool" where
  "inside d p = (prefix (d @ ''/'') p \<and> p \<noteq> d @ ''/'')"

section \<open>The file system and the console\<close>

text \<open>The exceptions an extraction may raise: \<open>zipfile.BadZipFile\<close>, or any other.\<close>

datatype fault = BadZipFile | OtherError

text \<open>
  The state of a member of an archive: sound; one that cannot be opened (\<open>ZipFile.open\<close>
  raises the given exception: a bad header, a compression that is not supported); or one
  whose check sum fails, \<open>BadZipFile\<close> being raised when the given number of characters
  has been written to the target.
\<close>

datatype soundness = Sound | Unopenable fault | BadCrc nat

text \<open>
  A member of an archive: its name, its text and its state. Member names are relative
  paths in normal form (no empty component, no \<open>.\<close> or \<open>..\<close>), as archivers write them,
  so that \<open>ZipFile.extract(name, dir)\<close> writes the member at \<open>join dir name\<close>.
\<close>

record zmember =
  member_name :: string
  member_data :: string
  member_state :: soundness

text \<open>
  A regular file has two views: its decoded text when opened for reading (\<open>None\<close>: the
  read raises), and its members when opened as an archive (\<open>None\<close>: it is not a valid
  archive, \<open>ZipFile\<close> raises \<open>BadZipFile\<close>).
\<close>

record regfile =
  content :: "string option"
  members :: "zmember list option"

text \<open>What the program prints, one constructor per message.\<close>

datatype event =
    Processing string
  | ErrorFileNotFound string
  | ErrorReadingFile
  | NoLogFilesInZip string
  | FoundLogFilesInZip nat string
  | ErrorNotValidZip string
  | ErrorExtracting string
  | NoFilesFound
  | FoundFiles nat nat
  | CreatedTempDir string
  | ProcessingZip string
  | FoundMatches nat string
  | NoMatches string
  | RemovedTempDir string
  | SavedText string
  | ErrorWritingText
  | SavedHtml string
  | ErrorWritingHtml

text \<open>The messages that report an error (their text starts with \<open>Error\<close>).\<close>

fun is_error :: "event \<Rightarrow> bool" where
  "is_error (ErrorFileNotFound _) = True"
| "is_error ErrorReadingFile = True"
| "is_error (ErrorNotValidZip _) = True"
| "is_error (ErrorExtracting _) = True"
| "is_error ErrorWritingText = True"
| "is_error ErrorWritingHtml = True"
| "is_error _ = False"

text \<open>
  The state the program runs in. \<open>files\<close> are the regular files it reads and the ones
  extraction creates, \<open>dirs\<close> the directories, \<open>listing\<close> what \<open>os.listdir\<close> returns
  (\<open>None\<close>: it raises). \<open>tempfile.mkdtemp\<close> returns the absolute path \<open>/\<close> followed by
  \<open>tmp_rel\<close>, a directory no other path of the run lies in; the files the report
  writers write are therefore kept in a store of their own, \<open>reports\<close>, and
  \<open>read_only\<close> holds the report paths that cannot be opened for writing. The two
  counters record the calls of \<open>mkdtemp\<close> and \<open>shutil.rmtree\<close>.
\<close>

record world =
  files :: "string \<rightharpoonup> regfile"
  dirs :: "string set"
  listing :: "string \<rightharpoonup> string list"
  stdout :: "event list"
  tmp_rel :: string
  mkdtemp_calls :: nat
  rmtree_calls :: nat
  reports :: "string \<rightharpoonup> string"
  read_only :: "string set"

definition emit :: "event \<Rightarrow> world \<Rightarrow> world" where
  "emit e w = w\<lparr>stdout := stdout w @ [e]\<rparr>"

definition isfile :: "world \<Rightarrow> string \<Rightarrow> bool" where
  "isfile w p = (files w p \<noteq> None)"

definition exists_path :: "world \<Rightarrow> string \<Rightarrow> bool" where
  "exists_path w p = (files w p \<noteq> None \<or> p \<in> dirs w)"

definition mkdtemp :: "world \<Rightarrow> string \<times> world" where
  "mkdtemp w =
     (CHR ''/'' # tmp_rel w,
      w\<lparr>dirs := insert (CHR ''/'' # tmp_rel w) (dirs w),
        mkdtemp_calls := Suc (mkdtemp_calls w)\<rparr>)"

definition rmtree :: "string \<Rightarrow> world \<Rightarrow> world" where
  "rmtree d w =
     w\<lparr>files := (\<lambda>p. if p = d \<or> inside d p then None else files w p),
       dirs := {p \<in> dirs w. \<not> (p = d \<or> inside d p)},
       rmtree_calls := Suc (rmtree_calls w)\<rparr>"

section \<open>filter_log_file\<close>

text \<open>
  A file opened in text mode with the default \<open>newline=None\<close> yields its lines with
  \<open>\r\n\<close> and a lone \<open>\r\<close> turned into \<open>\n\<close>; each line keeps its \<open>\n\<close>, and the
  last line may lack one.
\<close>

fun universal_newlines :: "string \<Rightarrow> string" where
  "universal_newlines [] = []"
| "universal_newlines [c] = (if c = CHR 0x0D then [newline] else [c])"
| "universal_newlines (c # d # s) =
     (if c = CHR 0x0D \<and> d = newline then newline # universal_newlines s
      else if c = CHR 0x0D then newline # universal_newlines (d # s)
      else c # universal_newlines (d # s))"

fun split_lines :: "string \<Rightarrow> string list" where
  "split_lines [] = []"
| "split_lines (c # s) =
     (if c = newline then [c] # split_lines s
      else (case split_lines s of [] \<Rightarrow> [[c]] | l # ls \<Rightarrow> (c # l) # ls))"

definition readlines :: "string \<Rightarrow> string list" where
  "readlines t = split_lines (universal_newlines t)"

text \<open>A Match: file name, line number, content.\<close>

type_synonym match = "string \<times> nat \<times> string"

text \<open>The loop of lines 37 to 42: \<open>n\<close> is the counter of \<open>enumerate(file, 1)\<close>.\<close>

fun filter_loop :: "pattern list \<Rightarrow> string \<Rightarrow> nat \<Rightarrow> string list \<Rightarrow> match list \<Rightarrow> match list" where
  "filter_loop ps filename n [] filtered_lines = filtered_lines"
| "filter_loop ps filename n (line # rest) filtered_lines =
     filter_loop ps filename (Suc n) rest
       (if line_matches ps line then filtered_lines @ [(filename, n, strip line)]
        else filtered_lines)"

text \<open>
  A path that is no regular file raises when opened: \<open>FileNotFoundError\<close> if nothing
  is there, another exception if a directory is. A read that raises does so after the
  progress message. Both handlers return the empty list.
\<close>

definition filter_log_file :: "world \<Rightarrow> string \<Rightarrow> pattern list \<Rightarrow> match list \<times> world" where
  "filter_log_file w file_path keyword_patterns =
     (case files w file_path of
        None \<Rightarrow>
          ([], emit (if file_path \<in> dirs w then ErrorReadingFile
                     else ErrorFileNotFound file_path) w)
      | Some f \<Rightarrow>
          (case content f of
             None \<Rightarrow> ([], emit ErrorReadingFile (emit (Processing (basename file_path)) w))
           | Some t \<Rightarrow>
               (filter_loop keyword_patterns (basename file_path) 1 (readlines t) [],
                emit (Processing (basename file_path)) w)))"

section \<open>extract_log_files_from_zip\<close>

text \<open>The directories \<open>ZipFile.extract\<close> creates for a member: one per separator of
  its name.\<close>

definition parent_dirs :: "string \<Rightarrow> string \<Rightarrow> string list" where
  "parent_dirs d name =
     map (\<lambda>i. join d (take i name)) (filter (\<lambda>i. is_sep (name ! i)) [0..<length name])"

text \<open>\<open>open(target, "wb")\<close> and the copy of the member's data into it: opening raises
  when a directory stands at the target or a regular file where its directory should
  be; otherwise the data is written, replacing a file already there, and \<open>raised\<close> is
  the exception of the copy, if any.\<close>

definition write_target :: "string \<Rightarrow> string \<Rightarrow> fault option \<Rightarrow> world \<Rightarrow> fault option \<times> world" where
  "write_target target data raised w =
     (if target \<in> dirs w \<or> files w (dirname target) \<noteq> None then (Some OtherError, w)
      else (raised,
            w\<lparr>files := (files w)(target \<mapsto> \<lparr>content = Some data, members = None\<rparr>)\<rparr>))"

definition getinfo :: "zmember list \<Rightarrow> string \<Rightarrow> zmember option" where
  "getinfo ms name = List.find (\<lambda>m. member_name m = name) (rev ms)"

text \<open>
  \<open>zip_ref.extract(name, temp_dir)\<close> takes the last member of that name and goes through
  the steps of \<open>ZipFile._extract_member\<close>: if the directory of the target does not
  exist, \<open>os.makedirs\<close> creates it and those above it, raising, with nothing created,
  when a regular file stands in the way; then the member is opened, then the target,
  and the data is copied. What an extraction that raises has created by then stays.
  \<open>temp_dir\<close> itself is taken to exist.
\<close>

definition zip_extract :: "zmember list \<Rightarrow> string \<Rightarrow> string \<Rightarrow> world \<Rightarrow> fault option \<times> world" where
  "zip_extract ms name temp_dir w =
     (case getinfo ms name of
        None \<Rightarrow> (Some OtherError, w)
      | Some m \<Rightarrow>
          if \<not> exists_path w (dirname (join temp_dir name))
             \<and> list_ex (\<lambda>d. files w d \<noteq> None) (parent_dirs temp_dir name)
          then (Some OtherError, w)
          else
            (let w1 = (if exists_path w (dirname (join temp_dir name)) then w
                       else w\<lparr>dirs := dirs w \<union> set (parent_dirs temp_dir name)\<rparr>)
             in case member_state m of
                  Unopenable e \<Rightarrow> (Some e, w1)
                | Sound \<Rightarrow> write_target (join temp_dir name) (member_data m) None w1
                | BadCrc k \<Rightarrow>
                    write_target (join temp_dir name) (take k (member_data m))
                      (Some BadZipFile) w1))"

text \<open>\<open>shutil.move(src, dst)\<close> of a regular file: into \<open>dst\<close> when \<open>dst\<close> is a
  directory (raising if the name is taken there), onto \<open>dst\<close> otherwise, replacing a
  file already there. The program only moves a file it has just extracted.\<close>

definition move :: "string \<Rightarrow> string \<Rightarrow> world \<Rightarrow> fault option \<times> world" where
  "move src dst w =
     (case files w src of
        None \<Rightarrow> (Some OtherError, w)
      | Some f \<Rightarrow>
          if dst \<in> dirs w then
            (if exists_path w (join dst (basename src)) then (Some OtherError, w)
             else (None, w\<lparr>files := ((files w)(src := None))(join dst (basename src) \<mapsto> f)\<rparr>))
          else (None, w\<lparr>files := ((files w)(src := None))(dst \<mapsto> f)\<rparr>))"

text \<open>The body of the loop over \<open>log_files\<close> (lines 93 to 113): the path appended to
  \<open>extracted_files\<close>, or the exception raised.\<close>

definition extract_one :: "zmember list \<Rightarrow> string \<Rightarrow> string \<Rightarrow> string \<Rightarrow> world \<Rightarrow> (fault + string) \<times> world" where
  "extract_one ms zip_path temp_dir log_file w =
     (case zip_extract ms log_file temp_dir w of
        (Some e, w1) \<Rightarrow> (Inl e, w1)
      | (None, w1) \<Rightarrow>
          if dirname log_file \<noteq> [] then
            (let new_path =
                   (if exists_path w1 (join temp_dir (basename log_file))
                    then join temp_dir
                           (fst (splitext (basename log_file)) @ ''_'' @ basename zip_path
                              @ snd (splitext log_file))
                    else join temp_dir (basename log_file))
             in case move (join temp_dir log_file) new_path w1 of
                  (Some e, w2) \<Rightarrow> (Inl e, w2)
                | (None, w2) \<Rightarrow> (Inr new_path, w2))
          else (Inr (join temp_dir log_file), w1))"

text \<open>The loop; an exception ends it in one of the two handlers, and the function
  returns the files extracted so far.\<close>

fun extract_loop :: "zmember list \<Rightarrow> string \<Rightarrow> string \<Rightarrow> string list \<Rightarrow> string list \<Rightarrow> world \<Rightarrow> string list \<times> world" where
  "extract_loop ms zip_path temp_dir [] extracted_files w = (extracted_files, w)"
| "extract_loop ms zip_path temp_dir (log_file # rest) extracted_files w =
     (case extract_one ms zip_path temp_dir log_file w of
        (Inl BadZipFile, w') \<Rightarrow> (extracted_files, emit (ErrorNotValidZip (basename zip_path)) w')
      | (Inl OtherError, w') \<Rightarrow> (extracted_files, emit (ErrorExtracting (basename zip_path)) w')
      | (Inr path, w') \<Rightarrow> extract_loop ms zip_path temp_dir rest (extracted_files @ [path]) w')"

definition is_log_name :: "string \<Rightarrow> bool" where
  "is_log_name f = endswith (upper f) ''.LOG''"

definition is_zip_name :: "string \<Rightarrow> bool" where
  "is_zip_name f = endswith (upper f) ''.ZIP''"

definition extract_log_files_from_zip :: "string \<Rightarrow> string \<Rightarrow> world \<Rightarrow> string list \<times> world" where
  "extract_log_files_from_zip zip_path temp_dir w =
     (case files w zip_path of
        None \<Rightarrow> ([], emit (ErrorExtracting (basename zip_path)) w)
      | Some f \<Rightarrow>
          (case members f of
             None \<Rightarrow> ([], emit (ErrorNotValidZip (basename zip_path)) w)
           | Some ms \<Rightarrow>
               (let log_files = filter is_log_name (map member_name ms)
                in if log_files = [] then ([], emit (NoLogFilesInZip (basename zip_path)) w)
                   else extract_loop ms zip_path temp_dir log_files []
                          (emit (FoundLogFilesInZip (length log_files) (basename zip_path)) w))))"

section \<open>The report writers\<close>

text \<open>\<open>str\<close> of a natural number.\<close>

function str_nat :: "nat \<Rightarrow> string" where
  "str_nat n =
     (if n < 10 then [char_of (48 + n)]
      else str_nat (n div 10) @ [char_of (48 + n mod 10)])"
  by pat_completeness auto
termination
  by (relation "measure id") auto

definition text_line :: "match \<Rightarrow> string" where
  "text_line m =
     fst m @ '' - Line '' @ str_nat (fst (snd m)) @ '': '' @ snd (snd m) @ [newline]"

definition text_report :: "match list \<Rightarrow> string" where
  "text_report filtered_lines =
     ''Total matches found: '' @ str_nat (length filtered_lines) @ [newline]
       @ replicate 50 (CHR ''='') @ [newline, newline]
       @ concat (map text_line filtered_lines)"

text \<open>Opening the output file raises when the path cannot be written; the handler
  prints the error and nothing is written.\<close>

definition save_results_as_text :: "match list \<Rightarrow> string \<Rightarrow> world \<Rightarrow> world" where
  "save_results_as_text filtered_lines output_file w =
     (if output_file \<in> read_only w then emit ErrorWritingText w
      else emit (SavedText output_file)
             (w\<lparr>reports := (reports w)(output_file \<mapsto> text_report filtered_lines)\<rparr>))"

definition html_line :: "string \<Rightarrow> string" where
  "html_line l = l @ [newline]"

definition html_header :: "nat \<Rightarrow> string" where
  "html_header n =
     html_line ''<!DOCTYPE html>''
     @ html_line ''<html>''
     @ html_line ''<head>''
     @ html_line ''    <title>LOG File Filtering Results</title>''
     @ html_line ''    <style>''
     @ html_line ''        body { font-family: Arial, sans-serif; margin: 20px; }''
     @ html_line ''        h1 { color: #333; }''
     @ html_line ''        .result-line { margin: 5px 0; padding: 5px; border-bottom: 1px solid #eee; font-family: monospace; white-space: pre-wrap; }''
     @ html_line ''        .file-info { color: #555; font-weight: bold; }''
     @ html_line ''        .match { background-color: #CCFFCC; color: #008800; font-weight: bold; }''
     @ html_line ''        .mismatch { background-color: #FFCCCC; color: #CC0000; font-weight: bold; }''
     @ html_line ''        .configuration { background-color: #CCE5FF; color: #0066CC; font-weight: bold; }''
     @ html_line ''        .highlight { background-color: #FFFFCC; color: #888800; font-weight: bold; }''
     @ html_line ''        .summary { margin: 20px 0; padding: 10px; background-color: #f0f0f0; border-radius: 5px; }''
     @ html_line ''    </style>''
     @ html_line ''</head>''
     @ html_line ''<body>''
     @ html_line ''    <h1>LOG File Filtering Results</h1>''
     @ html_line (''    <div class='' @ [dquote] @ ''summary'' @ [dquote] @ ''>'')
     @ html_line (''        <p>Total matches found: '' @ str_nat n @ ''</p>'')
     @ html_line ''    </div>''"

definition html_footer :: string where
  "html_footer = html_line ''</body>'' @ ''</html>''"

definition html_block :: "match \<Rightarrow> string \<Rightarrow> string" where
  "html_block m html_content =
     html_line (''    <div class='' @ [dquote] @ ''result-line'' @ [dquote] @ ''>'')
     @ html_line (''        <span class='' @ [dquote] @ ''file-info'' @ [dquote] @ ''>''
                    @ fst m @ '' - Line '' @ str_nat (fst (snd m)) @ '':</span> ''
                    @ html_content)
     @ html_line ''    </div>''"

text \<open>The loop of lines 302 to 309 over what is written so far; an exception of
  \<open>highlight_text\<close> ends it (\<open>Inl\<close>: the text written until then).\<close>

fun html_blocks :: "(string, colors) dict option \<Rightarrow> match list \<Rightarrow> string \<Rightarrow> string + string" where
  "html_blocks highlight_words [] written = Inr written"
| "html_blocks highlight_words (m # rest) written =
     (case highlight_text (snd (snd m)) highlight_words True of
        None \<Rightarrow> Inl written
      | Some html_content \<Rightarrow>
          html_blocks highlight_words rest (written @ html_block m html_content))"

definition save_results_as_html :: "match list \<Rightarrow> string \<Rightarrow> (string, colors) dict option \<Rightarrow> world \<Rightarrow> world" where
  "save_results_as_html filtered_lines output_file highlight_words w =
     (if output_file \<in> read_only w then emit ErrorWritingHtml w
      else (case html_blocks highlight_words filtered_lines
                   (html_header (length filtered_lines)) of
              Inl written \<Rightarrow>
                emit ErrorWritingHtml (w\<lparr>reports := (reports w)(output_file \<mapsto> written)\<rparr>)
            | Inr written \<Rightarrow>
                emit (SavedHtml output_file)
                  (w\<lparr>reports := (reports w)(output_file \<mapsto> written @ html_footer)\<rparr>)))"

section \<open>process_all_log_files\<close>

text \<open>The exceptions that leave \<open>process_all_log_files\<close>.\<close>

datatype error = ReError | ListdirError

text \<open>\<open>d[k] = v\<close> on a dict: in place when the key is there, at the end otherwise.\<close>

fun dict_set :: "('k, 'v) dict \<Rightarrow> 'k \<Rightarrow> 'v \<Rightarrow> ('k, 'v) dict" where
  "dict_set [] k v = [(k, v)]"
| "dict_set ((k', v') # d) k v = (if k' = k then (k, v) # d else (k', v') # dict_set d k v)"

text \<open>The two listings of lines 142 to 149.\<close>

definition discover_logs :: "world \<Rightarrow> string \<Rightarrow> string list \<Rightarrow> string list" where
  "discover_logs w folder_path names =
     map (join folder_path)
       (filter (\<lambda>f. isfile w (join folder_path f) \<and> is_log_name f) names)"

definition discover_zips :: "world \<Rightarrow> string \<Rightarrow> string list \<Rightarrow> bool \<Rightarrow> string list" where
  "discover_zips w folder_path names process_zips =
     (if process_zips
      then map (join folder_path)
             (filter (\<lambda>f. isfile w (join folder_path f) \<and> is_zip_name f) names)
      else [])"

text \<open>The loop over \<open>zip_files\<close> (lines 168 to 173).\<close>

fun zip_loop :: "string \<Rightarrow> string list \<Rightarrow> string list \<Rightarrow> world \<Rightarrow> string list \<times> world" where
  "zip_loop temp_dir [] log_files w = (log_files, w)"
| "zip_loop temp_dir (zip_file # rest) log_files w =
     (case extract_log_files_from_zip zip_file temp_dir
             (emit (ProcessingZip (basename zip_file)) w) of
        (extracted_logs, w') \<Rightarrow> zip_loop temp_dir rest (log_files @ extracted_logs) w')"

text \<open>The loop over \<open>log_files\<close> (lines 176 to 187).\<close>

fun files_loop :: "pattern list \<Rightarrow> string list \<Rightarrow> (string, match list) dict \<Rightarrow> match list \<Rightarrow> world
    \<Rightarrow> ((string, match list) dict \<times> match list) \<times> world" where
  "files_loop ps [] results all_filtered_lines w = ((results, all_filtered_lines), w)"
| "files_loop ps (log_file_path # rest) results all_filtered_lines w =
     (case filter_log_file w log_file_path ps of
        (filtered_lines, w') \<Rightarrow>
          if filtered_lines \<noteq> []
          then files_loop ps rest
                 (dict_set results (basename log_file_path) filtered_lines)
                 (all_filtered_lines @ filtered_lines)
                 (emit (FoundMatches (length filtered_lines) (basename log_file_path)) w')
          else files_loop ps rest results all_filtered_lines
                 (emit (NoMatches (basename log_file_path)) w'))"

text \<open>The \<open>try\<close> block (lines 162 to 187): the temporary directory, if one was made,
  and the outcome of the two loops. Nothing in it raises: both callees catch their
  exceptions.\<close>

definition try_block :: "pattern list \<Rightarrow> string list \<Rightarrow> string list \<Rightarrow> world
    \<Rightarrow> string option \<times> ((string, match list) dict \<times> match list) \<times> world" where
  "try_block ps log_files zip_files w =
     (if zip_files \<noteq> [] then
        (case mkdtemp w of
           (temp_dir, w1) \<Rightarrow>
             (case zip_loop temp_dir zip_files log_files (emit (CreatedTempDir temp_dir) w1) of
                (log_files', w2) \<Rightarrow> (Some temp_dir, files_loop ps log_files' [] [] w2)))
      else (None, files_loop ps log_files [] [] w))"

text \<open>The \<open>finally\<close> block (lines 190 to 193).\<close>

definition finally_block :: "string option \<Rightarrow> world \<Rightarrow> world" where
  "finally_block temp_dir w =
     (case temp_dir of
        None \<Rightarrow> w
      | Some d \<Rightarrow>
          if d \<noteq> [] \<and> exists_path w d then emit (RemovedTempDir d) (rmtree d w) else w)"

definition process_all_log_files :: "string \<Rightarrow> string list \<Rightarrow> string \<Rightarrow> string
    \<Rightarrow> (string, colors) dict option \<Rightarrow> bool \<Rightarrow> world
    \<Rightarrow> (error + (string, match list) dict) \<times> world" where
  "process_all_log_files folder_path keywords output_txt output_html highlight_words process_zips w =
     (case compile_keyword_patterns keywords of
        None \<Rightarrow> (Inl ReError, w)
      | Some keyword_patterns \<Rightarrow>
          (case listing w folder_path of
             None \<Rightarrow> (Inl ListdirError, w)
           | Some names \<Rightarrow>
               (let log_files = discover_logs w folder_path names;
                    zip_files = discover_zips w folder_path names process_zips
                in if log_files = [] \<and> zip_files = [] then (Inr [], emit NoFilesFound w)
                   else
                     (case try_block keyword_patterns log_files zip_files
                             (emit (FoundFiles (length log_files) (length zip_files)) w) of
                        (temp_dir, (results, all_filtered_lines), w1) \<Rightarrow>
                          (let w2 = finally_block temp_dir w1
                           in if all_filtered_lines \<noteq> []
                              then (Inr results,
                                    save_results_as_html all_filtered_lines output_html
                                      highlight_words
                                      (save_results_as_text all_filtered_lines output_txt w2))
                              else (Inr results, w2))))))"

section \<open>load_config\<close>

text \<open>What \<open>json.load\<close> returns.\<close>

datatype json =
    JNull
  | JBool bool
  | JNum int
  | JStr string
  | JArr "json list"
  | JObj "(string \<times> json) list"

text \<open>The configuration file as \<open>load_config\<close> meets it: no path given or nothing at
  the path; a file that cannot be opened or parsed (\<open>open\<close> or \<open>json.load\<close> raises);
  or the parsed document.\<close>

datatype config_file = Missing | Unparsable | Parsed json

definition default_keywords :: json where
  "default_keywords = JArr [JStr ''CCP: EPK'', JStr ''Configuration file:'']"

definition default_highlight :: "(string, colors) dict" where
  "default_highlight = [(''mismatch'', RED), (''match'', GREEN), (''Configuration file:'', BLUE)]"

text \<open>Lines 348 to 357.\<close>

definition color_of_name :: "string \<Rightarrow> colors" where
  "color_of_name color =
     (if upper color = ''RED'' then RED
      else if upper color = ''GREEN'' then GREEN
      else if upper color = ''BLUE'' then BLUE
      else if upper color = ''YELLOW'' then YELLOW
      else RESET)"

text \<open>The loop of lines 347 to 357; \<open>None\<close> stands for the \<open>AttributeError\<close> of
  \<open>color.upper()\<close> on a value that is not a string.\<close>

fun convert_colors :: "(string \<times> json) list \<Rightarrow> (string, colors) dict \<Rightarrow> (string, colors) dict option" where
  "convert_colors [] highlight_words = Some highlight_words"
| "convert_colors ((word, JStr color) # rest) highlight_words =
     convert_colors rest (dict_set highlight_words word (color_of_name color))"
| "convert_colors ((word, _) # rest) highlight_words = None"

text \<open>\<open>config.get\<close> and \<open>.items()\<close> raise \<open>AttributeError\<close> on a value that is not a
  dict; every exception of the \<open>try\<close> block ends in the handler, which returns the
  defaults.\<close>

definition load_config :: "config_file \<Rightarrow> json \<times> (string, colors) dict" where
  "load_config config_file =
     (case config_file of
        Missing \<Rightarrow> (default_keywords, default_highlight)
      | Unparsable \<Rightarrow> (default_keywords, default_highlight)
      | Parsed (JObj config) \<Rightarrow>
          (let keywords = (case map_of config ''keywords'' of
                             None \<Rightarrow> default_keywords | Some v \<Rightarrow> v)
           in case (case map_of config ''highlight_words'' of None \<Rightarrow> JObj [] | Some v \<Rightarrow> v) of
                JObj items \<Rightarrow>
                  (case convert_colors items [] of
                     None \<Rightarrow> (default_keywords, default_highlight)
                   | Some highlight_words \<Rightarrow> (keywords, highlight_words))
              | _ \<Rightarrow> (default_keywords, default_highlight))
      | Parsed _ \<Rightarrow> (default_keywords, default_highlight))"

section \<open>Notions the statements use\<close>


text \<open>Nothing exists inside a directory.\<close>

definition empty_dir :: "world \<Rightarrow> string \<Rightarrow> bool" where
  "empty_dir w d = (\<forall>p. inside d p \<longrightarrow> \<not> exists_path w p)"

text \<open>A state with no file, no directory and nothing printed, from which the concrete
  states of the examples are built.\<close>

definition empty_world :: world where
  "empty_world =
     \<lparr>files = Map.empty, dirs = {}, listing = Map.empty, stdout = [],
      tmp_rel = ''tmp/tmpk3v9'', mkdtemp_calls = 0, rmtree_calls = 0,
      reports = Map.empty, read_only = {}\<rparr>"

text \<open>A log file whose only line starts with two spaces, and one of three lines, the
  second ending in a space and \<open>\r\n\<close>.\<close>

definition leading_space_world :: world where
  "leading_space_world =
     empty_world\<lparr>files := [''/logs/app.LOG'' \<mapsto>
        \<lparr>content = Some (''  CCP: EPK'' @ [newline]), members = None\<rparr>]\<rparr>"

definition three_line_world :: world where
  "three_line_world =
     empty_world\<lparr>files := [''/logs/app.LOG'' \<mapsto>
        \<lparr>content = Some (''hello'' @ [newline] @ ''  CCP: EPK found '' @ [CHR 0x0D, newline] @ ''nothing''),
         members = None\<rparr>]\<rparr>"

text \<open>What every step of a run other than \<open>mkdtemp\<close>, \<open>rmtree\<close> and the report writers
  leaves as it is: the two counters, the reports, the listings; directories are only
  added and messages only appended.\<close>

definition keeps :: "world \<Rightarrow> world \<Rightarrow> bool" where
  "keeps w w' =
     (mkdtemp_calls w' = mkdtemp_calls w \<and> rmtree_calls w' = rmtree_calls w
      \<and> reports w' = reports w \<and> read_only w' = read_only w
      \<and> tmp_rel w' = tmp_rel w \<and> listing w' = listing w
      \<and> dirs w \<subseteq> dirs w' \<and> prefix (stdout w) (stdout w'))"

text \<open>A folder with a log file, a file \<open>bad.zip\<close> that is no archive, and an archive
  \<open>good.zip\<close> whose second member cannot be extracted.\<close>

definition faulty_run_world :: world where
  "faulty_run_world =
     empty_world\<lparr>
       files := [''/logs/app.LOG'' \<mapsto>
                   \<lparr>content = Some (''hello'' @ [newline] @ ''CCP: EPK found'' @ [newline]),
                    members = None\<rparr>,
                 ''/logs/bad.zip'' \<mapsto> \<lparr>content = Some ''not an archive'', members = None\<rparr>,
                 ''/logs/good.zip'' \<mapsto>
                   \<lparr>content = None,
                    members = Some
                      [\<lparr>member_name = ''one.log'', member_data = ''Configuration file: a.cfg'',
                        member_state = Sound\<rparr>,
                       \<lparr>member_name = ''sub/two.log'', member_data = ''x'',
                        member_state = Unopenable OtherError\<rparr>]\<rparr>],
       dirs := {''/logs''},
       listing := [''/logs'' \<mapsto> [''app.LOG'', ''bad.zip'', ''good.zip'']]\<rparr>"

text \<open>A folder whose only log file holds no line with a keyword.\<close>

definition quiet_run_world :: world where
  "quiet_run_world =
     empty_world\<lparr>
       files := [''/logs/app.LOG'' \<mapsto>
                   \<lparr>content = Some (''hello'' @ [newline] @ ''nothing'' @ [newline]),
                    members = None\<rparr>],
       dirs := {''/logs''},
       listing := [''/logs'' \<mapsto> [''app.LOG'']]\<rparr>"

text \<open>The container of the example: two log members of the same base name in two
  folders, and a member that is no log.\<close>

definition two_xlog_members :: "zmember list" where
  "two_xlog_members =
     [\<lparr>member_name = ''a/x.LOG'', member_data = ''from a'', member_state = Sound\<rparr>,
      \<lparr>member_name = ''b/x.LOG'', member_data = ''from b'', member_state = Sound\<rparr>,
      \<lparr>member_name = ''readme.txt'', member_data = ''read me'', member_state = Sound\<rparr>]"

text \<open>A scratch directory that holds \<open>x.LOG\<close> already, and a folder with a container
  that puts it there before the container of the example is reached.\<close>

definition occupied_scratch_world :: world where
  "occupied_scratch_world =
     empty_world\<lparr>
       files := [''/logs/b.zip'' \<mapsto> \<lparr>content = None, members = Some two_xlog_members\<rparr>,
                 ''/tmp/t/x.LOG'' \<mapsto> \<lparr>content = Some ''earlier'', members = None\<rparr>],
       dirs := {''/logs'', ''/tmp/t''}\<rparr>"

definition two_containers_world :: world where
  "two_containers_world =
     empty_world\<lparr>
       files := [''/logs/a.zip'' \<mapsto>
                   \<lparr>content = None,
                    members = Some [\<lparr>member_name = ''x.LOG'', member_data = ''earlier'',
                                     member_state = Sound\<rparr>]\<rparr>,
                 ''/logs/b.zip'' \<mapsto> \<lparr>content = None, members = Some two_xlog_members\<rparr>],
       dirs := {''/logs'', ''/tmp/t''}\<rparr>"

section \<open>The keyword filter\<close>

lemma special_not_alnum: "re_special c \<Longrightarrow> \<not> is_alnum c \<and> c \<noteq> CHR ''b''"
  by (auto simp: re_special_def is_alnum_def is_upper_def is_lower_def is_digit_def backslash_def)

lemma plain_not_meta:
  "\<not> re_special c \<Longrightarrow> c \<noteq> backslash \<and> c \<noteq> CHR ''.'' \<and> \<not> re_meta c"
  by (auto simp: re_special_def re_meta_def backslash_def)

lemma re_parse_plain:
  "c \<noteq> backslash \<Longrightarrow> c \<noteq> CHR ''.'' \<Longrightarrow> \<not> re_meta c \<Longrightarrow>
   re_parse (c # r) = map_option ((#) (Lit c)) (re_parse r)"
  by (cases r) simp_all

lemma re_parse_escaped:
  "\<not> is_alnum d \<Longrightarrow> d \<noteq> CHR ''b'' \<Longrightarrow>
   re_parse (backslash # d # r) = map_option ((#) (Lit d)) (re_parse r)"
  by simp

text \<open>An escaped word parses to its own characters, whatever follows it.\<close>

lemma re_parse_escape_append:
  "re_parse (re_escape k @ r) = map_option ((@) (map Lit k)) (re_parse r)"
proof (induction k)
  case Nil
  show ?case by (simp add: re_escape_def option.map_ident)
next
  case (Cons c k)
  have step: "re_escape (c # k) @ r
      = (if re_special c then [backslash, c] else [c]) @ (re_escape k @ r)"
    by (simp add: re_escape_def)
  show ?case
  proof (cases "re_special c")
    case True
    with special_not_alnum[OF True] Cons show ?thesis
      by (simp add: step re_parse_escaped option.map_comp comp_def del: re_parse.simps)
  next
    case False
    with plain_not_meta[OF False] Cons show ?thesis
      by (simp add: step re_parse_plain option.map_comp comp_def del: re_parse.simps)
  qed
qed

lemma re_parse_escape: "re_parse (re_escape k) = Some (map Lit k)"
  using re_parse_escape_append[of k "[]"] by simp



lemma compile_keyword_patterns_lits:
  "compile_keyword_patterns K = Some (map (\<lambda>k. Pattern (map Lit k) True) K)"
  by (induction K) (simp_all add: re_compile_def re_parse_escape)



lemma filter_loop_eq:
  "filter_loop ps name n ls acc
     = acc @ map (\<lambda>i. (name, n + i, strip (ls ! i)))
               (filter (\<lambda>i. line_matches ps (ls ! i)) [0..<length ls])"
proof (induction ls arbitrary: n acc)
  case Nil
  show ?case by simp
next
  case (Cons l ls)
  have upt: "[0..<length (l # ls)] = 0 # map Suc [0..<length ls]"
    by (simp add: upt_conv_Cons map_Suc_upt del: upt_Suc)
  show ?case
    unfolding upt
    by (simp add: Cons.IH filter_map comp_def del: upt_Suc)
qed



section \<open>The Highlighter\<close>


lemma term_pattern_total:
  "term_pattern T = Some (Pattern
      (if lower T \<in> set [''match'', ''mismatch''] \<and> CHR '' '' \<notin> set T
       then WordBoundary # map Lit T @ [WordBoundary] else map Lit T) True)"
proof -
  have b: "re_parse [backslash, CHR ''b''] = Some [WordBoundary]"
    by simp
  have "re_parse (backslash # CHR ''b'' # re_escape T @ [backslash, CHR ''b''])
          = Some (WordBoundary # map Lit T @ [WordBoundary])"
    using re_parse_escape_append[of T "[backslash, CHR ''b'']"] b by simp
  then show ?thesis
    by (simp add: term_pattern_def re_compile_def re_parse_escape)
qed

lemma sub_from_no_match:
  "\<not> search_from ic as prev s \<Longrightarrow> sub_from ic as f prev s = s"
  by (induction s arbitrary: prev) auto

lemma re_sub_no_match: "\<not> re_search p s \<Longrightarrow> re_sub p f s = s"
  by (simp add: re_search_def re_sub_def sub_from_no_match)

lemma sorted_items_single: "sorted_items [x] = [x]"
  by (simp add: sorted_items_def)

lemma replace_char_absent: "c \<notin> set s \<Longrightarrow> replace_char c new s = s"
  by (induction s) (auto simp: replace_char_def)

lemma replace_char_length:
  "2 \<le> length new \<Longrightarrow> length s \<le> length (replace_char c new s)"
  by (induction s) (auto simp: replace_char_def)

lemma replace_char_longer:
  "2 \<le> length new \<Longrightarrow> c \<in> set s \<Longrightarrow> length s < length (replace_char c new s)"
proof (induction s)
  case Nil
  then show ?case by simp
next
  case (Cons d s)
  have le: "length s \<le> length (replace_char c new s)"
    using Cons.prems(1) by (rule replace_char_length)
  have step: "replace_char c new (d # s) = (if d = c then new else [d]) @ replace_char c new s"
    by (simp add: replace_char_def)
  show ?case
  proof (cases "d = c")
    case True
    with le Cons.prems(1) show ?thesis unfolding step by simp
  next
    case False
    with Cons have "length s < length (replace_char c new s)" by simp
    with False show ?thesis unfolding step by simp
  qed
qed

lemma html_escape_plain:
  "CHR ''&'' \<notin> set L \<Longrightarrow> CHR ''<'' \<notin> set L \<Longrightarrow> CHR ''>'' \<notin> set L \<Longrightarrow> html_escape L = L"
  by (simp add: html_escape_def replace_char_absent)

text \<open>Escaping changes a line that holds one of the three characters.\<close>

lemma html_escape_same_iff:
  "(html_escape L = L)
     = (CHR ''&'' \<notin> set L \<and> CHR ''<'' \<notin> set L \<and> CHR ''>'' \<notin> set L)"
proof
  assume e: "html_escape L = L"
  let ?r1 = "replace_char (CHR ''&'') ''&amp;'' L"
  let ?r2 = "replace_char (CHR ''<'') ''&lt;'' ?r1"
  let ?r3 = "replace_char (CHR ''>'') ''&gt;'' ?r2"
  have l1: "length L \<le> length ?r1" by (rule replace_char_length) simp
  have l2: "length ?r1 \<le> length ?r2" by (rule replace_char_length) simp
  have l3: "length ?r2 \<le> length ?r3" by (rule replace_char_length) simp
  have "?r3 = L" using e by (simp add: html_escape_def)
  then have l: "length ?r3 = length L" by simp
  have n1: "CHR ''&'' \<notin> set L"
  proof
    assume "CHR ''&'' \<in> set L"
    then have "length L < length ?r1" by (intro replace_char_longer) simp_all
    with l1 l2 l3 l show False by simp
  qed
  then have r1: "?r1 = L" by (rule replace_char_absent)
  have n2: "CHR ''<'' \<notin> set L"
  proof
    assume "CHR ''<'' \<in> set L"
    then have "length L < length (replace_char (CHR ''<'') ''&lt;'' L)"
      by (intro replace_char_longer) simp_all
    with l2 l3 l show False unfolding r1 by simp
  qed
  then have r2: "?r2 = L" unfolding r1 by (rule replace_char_absent)
  have n3: "CHR ''>'' \<notin> set L"
  proof
    assume "CHR ''>'' \<in> set L"
    then have "length L < length (replace_char (CHR ''>'') ''&gt;'' L)"
      by (intro replace_char_longer) simp_all
    with l show False unfolding r2 by simp
  qed
  from n1 n2 n3
  show "CHR ''&'' \<notin> set L \<and> CHR ''<'' \<notin> set L \<and> CHR ''>'' \<notin> set L" by simp
next
  assume "CHR ''&'' \<notin> set L \<and> CHR ''<'' \<notin> set L \<and> CHR ''>'' \<notin> set L"
  then show "html_escape L = L" by (simp add: html_escape_plain)
qed

text \<open>
  C5, as amended. For every line \<open>L\<close> and every single term \<open>T\<close> of ASCII text and every
  style \<open>c\<close>, the term has a matcher \<open>p\<close>, and: in plain mode, if \<open>p\<close> finds no occurrence
  in \<open>L\<close>, the Highlighter returns \<open>L\<close> unchanged; in structured mode the Highlighter
  first escapes \<open>&\<close>, \<open><\<close> and \<open>>\<close>, and if \<open>p\<close> finds no occurrence in the escaped line
  it returns the escaped line; the escaped line is \<open>L\<close> exactly when \<open>L\<close> holds none of
  the three characters, so that the Highlighter then returns \<open>L\<close> unchanged exactly when
  \<open>L\<close> holds none of them.
\<close>

theorem single_term_no_occurrence:
  assumes "ascii_text T" and "ascii_text L"
  shows "\<exists>p. term_pattern T = Some p
     \<and> (\<not> re_search p L \<longrightarrow> highlight_text L (Some [(T, c)]) False = Some L)
     \<and> (\<not> re_search p (html_escape L) \<longrightarrow>
          highlight_text L (Some [(T, c)]) True = Some (html_escape L))
     \<and> (html_escape L = L)
         = (CHR ''&'' \<notin> set L \<and> CHR ''<'' \<notin> set L \<and> CHR ''>'' \<notin> set L)
     \<and> (\<not> re_search p (html_escape L) \<longrightarrow>
          (highlight_text L (Some [(T, c)]) True = Some L)
            = (CHR ''&'' \<notin> set L \<and> CHR ''<'' \<notin> set L \<and> CHR ''>'' \<notin> set L))"
proof -
  obtain p where p: "term_pattern T = Some p"
    using term_pattern_total[of T] by blast
  have plain: "\<not> re_search p L \<Longrightarrow> highlight_text L (Some [(T, c)]) False = Some L"
    by (simp add: highlight_text_def sorted_items_single highlight_word_def p re_sub_no_match)
  have html: "\<not> re_search p (html_escape L) \<Longrightarrow>
      highlight_text L (Some [(T, c)]) True = Some (html_escape L)"
    by (simp add: highlight_text_def sorted_items_single highlight_word_def p re_sub_no_match)
  have same: "(html_escape L = L)
         = (CHR ''&'' \<notin> set L \<and> CHR ''<'' \<notin> set L \<and> CHR ''>'' \<notin> set L)"
    by (rule html_escape_same_iff)
  have both: "\<not> re_search p (html_escape L) \<Longrightarrow>
      (highlight_text L (Some [(T, c)]) True = Some L)
        = (CHR ''&'' \<notin> set L \<and> CHR ''<'' \<notin> set L \<and> CHR ''>'' \<notin> set L)"
    using html same by simp
  from p plain html same both show ?thesis by blast
qed

text \<open>
  C5 as stated fails in structured mode: the term \<open>zzz\<close> does not occur in the line
  \<open>a & b\<close>, and the Highlighter returns \<open>a &amp; b\<close>.
\<close>

theorem single_term_no_occurrence_counterexample:
  "term_pattern ''zzz'' = Some (Pattern (map Lit ''zzz'') True)
   \<and> \<not> re_search (Pattern (map Lit ''zzz'') True) ''a & b''
   \<and> highlight_text ''a & b'' (Some [(''zzz'', YELLOW)]) True = Some ''a &amp; b''
   \<and> ''a &amp; b'' \<noteq> ''a & b''"
  by code_simp

text \<open>
  The hypotheses of C5 hold of the term \<open>zzz\<close> and the lines \<open>a & b\<close> and \<open>a b\<close>.
\<close>

theorem single_term_no_occurrence_witness:
  "ascii_text ''zzz'' \<and> ascii_text ''a & b'' \<and> ascii_text ''a b''
   \<and> term_pattern ''zzz'' = Some (Pattern (map Lit ''zzz'') True)
   \<and> \<not> re_search (Pattern (map Lit ''zzz'') True) ''a & b''
   \<and> \<not> re_search (Pattern (map Lit ''zzz'') True) (html_escape ''a & b'')
   \<and> highlight_text ''a & b'' (Some [(''zzz'', YELLOW)]) False = Some ''a & b''
   \<and> highlight_text ''a & b'' (Some [(''zzz'', YELLOW)]) True = Some (html_escape ''a & b'')
   \<and> highlight_text ''a & b'' (Some [(''zzz'', YELLOW)]) True \<noteq> Some ''a & b''
   \<and> \<not> re_search (Pattern (map Lit ''zzz'') True) (html_escape ''a b'')
   \<and> highlight_text ''a b'' (Some [(''zzz'', YELLOW)]) True = Some ''a b''"
proof -
  have as: "ascii_text ''zzz''" "ascii_text ''a & b''" "ascii_text ''a b''"
    by code_simp+
  have tp: "term_pattern ''zzz'' = Some (Pattern (map Lit ''zzz'') True)"
    by code_simp
  have n1: "\<not> re_search (Pattern (map Lit ''zzz'') True) ''a & b''"
    by code_simp
  have n2: "\<not> re_search (Pattern (map Lit ''zzz'') True) (html_escape ''a & b'')"
    by code_simp
  have n3: "\<not> re_search (Pattern (map Lit ''zzz'') True) (html_escape ''a b'')"
    by code_simp
  have in1: "CHR ''&'' \<in> set ''a & b''" by simp
  have in2: "CHR ''&'' \<notin> set ''a b'' \<and> CHR ''<'' \<notin> set ''a b'' \<and> CHR ''>'' \<notin> set ''a b''"
    by simp
  from single_term_no_occurrence[OF as(1,2), of YELLOW] tp n1 n2 in1
  have a: "highlight_text ''a & b'' (Some [(''zzz'', YELLOW)]) False = Some ''a & b''"
    and b: "highlight_text ''a & b'' (Some [(''zzz'', YELLOW)]) True = Some (html_escape ''a & b'')"
    and b': "highlight_text ''a & b'' (Some [(''zzz'', YELLOW)]) True \<noteq> Some ''a & b''"
    by auto
  from single_term_no_occurrence[OF as(1,3), of YELLOW] tp n3 in2
  have c: "highlight_text ''a b'' (Some [(''zzz'', YELLOW)]) True = Some ''a b''"
    by auto
  from as tp n1 n2 n3 a b b' c show ?thesis by blast
qed

text \<open>
  C10. For every text, the Highlighter in structured mode returns the text verbatim when
  the HighlightSpec is absent or empty: \<open>&\<close>, \<open><\<close> and \<open>>\<close> are not escaped then, as they
  are under a HighlightSpec that is not empty.
\<close>

theorem empty_spec_returns_text_verbatim:
  "highlight_text t None True = Some t
   \<and> highlight_text t (Some []) True = Some t
   \<and> highlight_text ''a<b & c>d'' None True = Some ''a<b & c>d''
   \<and> highlight_text ''a<b & c>d'' (Some []) True = Some ''a<b & c>d''
   \<and> highlight_text ''a<b & c>d'' (Some [(''x'', RED)]) True = Some ''a&lt;b &amp; c&gt;d''"
proof -
  have "highlight_text ''a<b & c>d'' (Some [(''x'', RED)]) True = Some ''a&lt;b &amp; c&gt;d''"
    by code_simp
  then show ?thesis by (simp add: highlight_text_def)
qed

text \<open>
  C3. Under the HighlightSpec that maps \<open>match\<close> to GREEN and \<open>mismatch\<close> to RED (in
  either insertion order), the line \<open>status: mismatch found\<close> comes out with the whole
  word \<open>mismatch\<close> wrapped once, in the span of class \<open>mismatch\<close> in structured mode and
  in the RED escape sequence in plain mode, and nothing else wrapped: the longer term is
  applied first, both terms are matched between word boundaries only, and so \<open>match\<close>
  finds no occurrence in the line.
\<close>

theorem mismatch_highlighted_as_a_unit:
  "highlight_text ''status: mismatch found'' (Some [(''match'', GREEN), (''mismatch'', RED)]) True
     = Some (''status: <span class='' @ [dquote] @ ''mismatch'' @ [dquote]
             @ ''>mismatch</span> found'')
   \<and> highlight_text ''status: mismatch found'' (Some [(''mismatch'', RED), (''match'', GREEN)]) True
     = Some (''status: <span class='' @ [dquote] @ ''mismatch'' @ [dquote]
             @ ''>mismatch</span> found'')
   \<and> highlight_text ''status: mismatch found'' (Some [(''match'', GREEN), (''mismatch'', RED)]) False
     = Some (''status: '' @ ansi RED @ ''mismatch'' @ ansi RESET @ '' found'')
   \<and> highlight_text ''status: mismatch found'' (Some [(''mismatch'', RED), (''match'', GREEN)]) False
     = Some (''status: '' @ ansi RED @ ''mismatch'' @ ansi RESET @ '' found'')
   \<and> sorted_items [(''match'', GREEN), (''mismatch'', RED)] = [(''mismatch'', RED), (''match'', GREEN)]
   \<and> term_pattern ''match'' = Some (Pattern (WordBoundary # map Lit ''match'' @ [WordBoundary]) True)
   \<and> term_pattern ''mismatch''
       = Some (Pattern (WordBoundary # map Lit ''mismatch'' @ [WordBoundary]) True)
   \<and> \<not> re_search (Pattern (WordBoundary # map Lit ''match'' @ [WordBoundary]) True)
         ''status: mismatch found''"
  by code_simp

section \<open>The Line Filter\<close>

lemma strip_decomposition:
  "\<exists>a b. L = a @ strip L @ b \<and> list_all is_space a \<and> list_all is_space b"
proof -
  let ?r = "rstrip L"
  have "rev (takeWhile is_space (rev L) @ dropWhile is_space (rev L)) = L"
    by (simp only: takeWhile_dropWhile_id rev_rev_ident)
  then have 1: "L = ?r @ rev (takeWhile is_space (rev L))"
    by (simp only: rev_append rstrip_def)
  have 2: "?r = takeWhile is_space ?r @ strip L"
    by (simp add: strip_def lstrip_def)
  have 3: "list_all is_space (takeWhile is_space ?r)"
    by (simp add: list_all_iff) (meson set_takeWhileD)
  have 4: "list_all is_space (rev (takeWhile is_space (rev L)))"
    by (simp add: list_all_iff) (meson set_takeWhileD)
  have "L = takeWhile is_space ?r @ strip L @ rev (takeWhile is_space (rev L))"
    using 1 2 by (metis append.assoc)
  with 3 4 show ?thesis by blast
qed

lemma last_dropWhile_ne: "dropWhile P xs \<noteq> [] \<Longrightarrow> last (dropWhile P xs) = last xs"
  by (induction xs) (auto split: if_splits)

lemma strip_ends:
  "strip L = [] \<or> (\<not> is_space (hd (strip L)) \<and> \<not> is_space (last (strip L)))"
proof (cases "strip L = []")
  case True
  then show ?thesis by simp
next
  case False
  have h: "\<not> is_space (hd (strip L))"
    using False hd_dropWhile[of is_space "rstrip L"] by (simp add: strip_def lstrip_def)
  have ne: "dropWhile is_space (rev L) \<noteq> []"
  proof
    assume e: "dropWhile is_space (rev L) = []"
    have "strip L = dropWhile is_space (rev (dropWhile is_space (rev L)))"
      by (simp add: strip_def lstrip_def rstrip_def)
    also have "\<dots> = []" unfolding e by simp
    finally show False using False by simp
  qed
  have "last (strip L) = last (rstrip L)"
    using False by (simp add: strip_def lstrip_def last_dropWhile_ne)
  also have "\<dots> = hd (dropWhile is_space (rev L))"
    by (simp add: rstrip_def last_rev)
  finally have "\<not> is_space (last (strip L))"
    using hd_dropWhile[OF ne] by simp
  with h show ?thesis by simp
qed

text \<open>
  C2, as amended. For every file of ASCII text that can be read, and patterns compiled
  from ASCII keywords, the Line Filter records, for every line of the file that
  matches some pattern, a Match made of the base name of the file's path, the 1-based
  position of the line in the file, and the line with the white space at both of its
  ends removed; it records nothing else, in line order. Stripping an ASCII line removes
  white space only: the line is the recorded content between two runs of white space,
  and the content neither starts nor ends with white space.
\<close>

theorem filter_records_stripped_matches:
  assumes "files w p = Some f" and "content f = Some t" and "ascii_text t"
    and "\<forall>k\<in>set K. ascii_text k" and "compile_keyword_patterns K = Some ps"
  shows "fst (filter_log_file w p ps)
           = map (\<lambda>i. (basename p, Suc i, strip (readlines t ! i)))
               (filter (\<lambda>i. line_matches ps (readlines t ! i)) [0..<length (readlines t)])
         \<and> (\<forall>L. ascii_text L \<longrightarrow>
               (\<exists>a b. L = a @ strip L @ b \<and> list_all is_space a \<and> list_all is_space b
                  \<and> (strip L = [] \<or> (\<not> is_space (hd (strip L)) \<and> \<not> is_space (last (strip L))))))"
proof -
  have "fst (filter_log_file w p ps) = filter_loop ps (basename p) 1 (readlines t) []"
    using assms(1,2) by (simp add: filter_log_file_def)
  then have a: "fst (filter_log_file w p ps)
           = map (\<lambda>i. (basename p, Suc i, strip (readlines t ! i)))
               (filter (\<lambda>i. line_matches ps (readlines t ! i)) [0..<length (readlines t)])"
    by (simp add: filter_loop_eq)
  have b: "\<And>L. \<exists>a b. L = a @ strip L @ b \<and> list_all is_space a \<and> list_all is_space b
                \<and> (strip L = [] \<or> (\<not> is_space (hd (strip L)) \<and> \<not> is_space (last (strip L))))"
    using strip_decomposition strip_ends by blast
  from a b show ?thesis by blast
qed

text \<open>
  C2 as stated fails on a line that starts with white space: of the line
  \<open>"  CCP: EPK\n"\<close> the Line Filter records \<open>CCP: EPK\<close>, whereas stripping the trailing
  white space alone leaves \<open>"  CCP: EPK"\<close>.
\<close>

theorem filter_records_stripped_matches_counterexample:
  "compile_keyword_patterns [''CCP: EPK''] = Some [Pattern (map Lit ''CCP: EPK'') True]
   \<and> ascii_text (''  CCP: EPK'' @ [newline])
   \<and> fst (filter_log_file leading_space_world ''/logs/app.LOG'' [Pattern (map Lit ''CCP: EPK'') True])
     = [(''app.LOG'', 1, ''CCP: EPK'')]
   \<and> readlines (''  CCP: EPK'' @ [newline]) = [''  CCP: EPK'' @ [newline]]
   \<and> rstrip (''  CCP: EPK'' @ [newline]) = ''  CCP: EPK''
   \<and> ''CCP: EPK'' \<noteq> ''  CCP: EPK''"
  by code_simp

text \<open>The hypotheses of C2 hold of a file of three lines, whose second line matches.\<close>

theorem filter_records_stripped_matches_witness:
  "files three_line_world ''/logs/app.LOG''
     = Some \<lparr>content = Some (''hello'' @ [newline] @ ''  CCP: EPK found '' @ [CHR 0x0D, newline] @ ''nothing''),
             members = None\<rparr>
   \<and> ascii_text (''hello'' @ [newline] @ ''  CCP: EPK found '' @ [CHR 0x0D, newline] @ ''nothing'')
   \<and> list_all ascii_text [''CCP: EPK'', ''Configuration file:'']
   \<and> compile_keyword_patterns [''CCP: EPK'', ''Configuration file:'']
       = Some [Pattern (map Lit ''CCP: EPK'') True, Pattern (map Lit ''Configuration file:'') True]
   \<and> fst (filter_log_file three_line_world ''/logs/app.LOG''
            [Pattern (map Lit ''CCP: EPK'') True, Pattern (map Lit ''Configuration file:'') True])
       = [(''app.LOG'', 2, ''CCP: EPK found'')]"
proof -
  let ?t = "''hello'' @ [newline] @ ''  CCP: EPK found '' @ [CHR 0x0D, newline] @ ''nothing''"
  let ?f = "\<lparr>content = Some ?t, members = None\<rparr>"
  let ?K = "[''CCP: EPK'', ''Configuration file:'']"
  let ?ps = "[Pattern (map Lit ''CCP: EPK'') True, Pattern (map Lit ''Configuration file:'') True]"
  have f: "files three_line_world ''/logs/app.LOG'' = Some ?f"
    by (simp add: three_line_world_def empty_world_def)
  have c: "content ?f = Some ?t" by simp
  have a: "ascii_text ?t" by code_simp
  have k0: "list_all ascii_text ?K" by code_simp
  then have k: "\<forall>k\<in>set ?K. ascii_text k" by (simp only: list_all_iff)
  have cp: "compile_keyword_patterns ?K = Some ?ps" by code_simp
  have r: "map (\<lambda>i. (basename ''/logs/app.LOG'', Suc i, strip (readlines ?t ! i)))
               (filter (\<lambda>i. line_matches ?ps (readlines ?t ! i)) [0..<length (readlines ?t)])
           = [(''app.LOG'', 2, ''CCP: EPK found'')]"
    by code_simp
  have "fst (filter_log_file three_line_world ''/logs/app.LOG'' ?ps)
          = [(''app.LOG'', 2, ''CCP: EPK found'')]"
    using filter_records_stripped_matches[OF f c a k cp] unfolding r by blast
  with f a k0 cp show ?thesis by blast
qed

section \<open>The configuration\<close>

text \<open>
  C4. On a well-formed configuration that gives \<open>keywords\<close> and omits
  \<open>highlight_words\<close>, \<open>load_config\<close> returns the empty highlight mapping, not the
  default one; a configuration that omits \<open>keywords\<close> gets the default keywords, and a
  style name other than the four known ones maps to RESET.
\<close>

theorem missing_highlight_words_yields_empty_mapping:
  "load_config (Parsed (JObj [(''keywords'', JArr [JStr ''ERROR''])]))
     = (JArr [JStr ''ERROR''], [])
   \<and> default_highlight = [(''mismatch'', RED), (''match'', GREEN), (''Configuration file:'', BLUE)]
   \<and> load_config (Parsed (JObj [(''highlight_words'', JObj [(''warn'', JStr ''yellow''), (''x'', JStr ''pink'')])]))
     = (default_keywords, [(''warn'', YELLOW), (''x'', RESET)])"
  by code_simp

section \<open>What a run leaves unchanged\<close>

lemma keeps_refl: "keeps w w"
  by (simp add: keeps_def)

lemma keeps_trans: "keeps w w' \<Longrightarrow> keeps w' w'' \<Longrightarrow> keeps w w''"
  by (auto simp: keeps_def intro: prefix_order.trans)

lemma keeps_emit: "keeps w (emit e w)"
  by (simp add: keeps_def emit_def)

lemma keeps_write_target: "keeps w (snd (write_target target data raised w))"
  by (simp add: write_target_def keeps_def)

lemma keeps_makedirs: "keeps w (w\<lparr>dirs := dirs w \<union> D\<rparr>)"
  by (simp add: keeps_def)

lemma keeps_zip_extract: "keeps w (snd (zip_extract ms name d w))"
proof (cases "getinfo ms name")
  case None
  then show ?thesis by (simp add: zip_extract_def keeps_refl)
next
  case (Some m)
  let ?w1 = "if exists_path w (dirname (join d name)) then w
             else w\<lparr>dirs := dirs w \<union> set (parent_dirs d name)\<rparr>"
  have k1: "keeps w ?w1" by (simp add: keeps_refl keeps_makedirs)
  have k2: "\<And>data raised. keeps w (snd (write_target (join d name) data raised ?w1))"
    using keeps_trans[OF k1 keeps_write_target] .
  show ?thesis
  proof (cases "\<not> exists_path w (dirname (join d name))
                \<and> list_ex (\<lambda>d. files w d \<noteq> None) (parent_dirs d name)")
    case True
    then show ?thesis by (simp add: zip_extract_def Some keeps_refl)
  next
    case False
    have "zip_extract ms name d w =
            (case member_state m of
               Unopenable e \<Rightarrow> (Some e, ?w1)
             | Sound \<Rightarrow> write_target (join d name) (member_data m) None ?w1
             | BadCrc k \<Rightarrow>
                 write_target (join d name) (take k (member_data m)) (Some BadZipFile) ?w1)"
      using False unfolding zip_extract_def Some option.case Let_def by (simp only: if_False)
    then show ?thesis
      using k1 k2 by (cases "member_state m") simp_all
  qed
qed

lemma keeps_move: "keeps w (snd (move src dst w))"
  by (auto simp: move_def keeps_def split: option.splits)

lemma keeps_extract_one: "keeps w (snd (extract_one ms zp d lf w))"
proof -
  obtain r w1 where z: "zip_extract ms lf d w = (r, w1)" by (cases "zip_extract ms lf d w")
  have k1: "keeps w w1" using keeps_zip_extract[of w ms lf d] z by simp
  show ?thesis
  proof (cases r)
    case (Some e)
    with z k1 show ?thesis by (simp add: extract_one_def)
  next
    case None
    show ?thesis
    proof (cases "dirname lf \<noteq> []")
      case False
      with z None k1 show ?thesis by (simp add: extract_one_def)
    next
      case True
      define np where "np = (if exists_path w1 (join d (basename lf))
                    then join d (fst (splitext (basename lf)) @ ''_'' @ basename zp
                              @ snd (splitext lf))
                    else join d (basename lf))"
      obtain r2 w2 where m: "move (join d lf) np w1 = (r2, w2)"
        by (cases "move (join d lf) np w1")
      have k2: "keeps w1 w2" using keeps_move[of w1 "join d lf" np] m by simp
      have "snd (extract_one ms zp d lf w) = w2"
        using z None True m by (simp add: extract_one_def np_def Let_def split: option.splits)
      with keeps_trans[OF k1 k2] show ?thesis by simp
    qed
  qed
qed

lemma keeps_extract_loop: "keeps w (snd (extract_loop ms zp d lfs acc w))"
proof (induction lfs arbitrary: acc w)
  case Nil
  show ?case by (simp add: keeps_refl)
next
  case (Cons lf lfs)
  obtain r w' where e: "extract_one ms zp d lf w = (r, w')" by (cases "extract_one ms zp d lf w")
  have k: "keeps w w'" using keeps_extract_one[of w ms zp d lf] e by simp
  show ?case
  proof (cases r)
    case (Inl x)
    then show ?thesis using e k
      by (cases x) (auto intro: keeps_trans keeps_emit)
  next
    case (Inr path)
    then show ?thesis using e k Cons.IH[where acc="acc @ [path]" and w=w']
      by (auto intro: keeps_trans)
  qed
qed

lemma keeps_extract: "keeps w (snd (extract_log_files_from_zip zp d w))"
  by (auto simp: extract_log_files_from_zip_def Let_def keeps_emit
           split: option.splits intro: keeps_trans[OF keeps_emit keeps_extract_loop])

lemma keeps_zip_loop: "keeps w (snd (zip_loop d zs logs w))"
proof (induction zs arbitrary: logs w)
  case Nil
  show ?case by (simp add: keeps_refl)
next
  case (Cons z zs)
  obtain ex w' where e: "extract_log_files_from_zip z d (emit (ProcessingZip (basename z)) w) = (ex, w')"
    by (cases "extract_log_files_from_zip z d (emit (ProcessingZip (basename z)) w)")
  have "keeps (emit (ProcessingZip (basename z)) w) w'"
    using keeps_extract[of "emit (ProcessingZip (basename z)) w" z d] e by simp
  then have "keeps w w'" using keeps_emit keeps_trans by blast
  with Cons.IH[where logs="logs @ ex" and w=w'] e show ?case
    by (auto intro: keeps_trans)
qed

lemma keeps_filter_log_file: "keeps w (snd (filter_log_file w p ps))"
  by (auto simp: filter_log_file_def split: option.splits
           intro: keeps_emit keeps_trans[OF keeps_emit keeps_emit])

lemma keeps_files_loop: "keeps w (snd (files_loop ps lfs res all w))"
proof (induction lfs arbitrary: res all w)
  case Nil
  show ?case by (simp add: keeps_refl)
next
  case (Cons p lfs)
  obtain fl w' where f: "filter_log_file w p ps = (fl, w')" by (cases "filter_log_file w p ps")
  have k: "keeps w w'" using keeps_filter_log_file[of w p ps] f by simp
  show ?case
  proof (cases "fl \<noteq> []")
    case True
    have "keeps w (emit (FoundMatches (length fl) (basename p)) w')"
      using k keeps_emit keeps_trans by blast
    with Cons.IH[where res="dict_set res (basename p) fl" and all="all @ fl"
                    and w="emit (FoundMatches (length fl) (basename p)) w'"] f True
    show ?thesis by (auto intro: keeps_trans)
  next
    case False
    have "keeps w (emit (NoMatches (basename p)) w')"
      using k keeps_emit keeps_trans by blast
    with Cons.IH[where res=res and all=all and w="emit (NoMatches (basename p)) w'"] f False
    show ?thesis by (auto intro: keeps_trans)
  qed
qed

lemma keeps_try_block:
  assumes "try_block ps logs zips w = (t, ra, w1)"
  shows "zips = [] \<Longrightarrow> t = None \<and> keeps w w1"
    and "zips \<noteq> [] \<Longrightarrow> t = Some (CHR ''/'' # tmp_rel w) \<and> keeps (snd (mkdtemp w)) w1"
proof -
  assume "zips = []"
  with assms keeps_files_loop[of w ps logs "[]" "[]"] show "t = None \<and> keeps w w1"
    by (auto simp: try_block_def)
next
  assume nz: "zips \<noteq> []"
  let ?d = "CHR ''/'' # tmp_rel w"
  let ?w0 = "snd (mkdtemp w)"
  obtain l2 w2 where z: "zip_loop ?d zips logs (emit (CreatedTempDir ?d) ?w0) = (l2, w2)"
    by (cases "zip_loop ?d zips logs (emit (CreatedTempDir ?d) ?w0)")
  have k1: "keeps ?w0 w2"
    using keeps_zip_loop[of "emit (CreatedTempDir ?d) ?w0" ?d zips logs] z keeps_emit keeps_trans
    by fastforce
  have k2: "keeps w2 (snd (files_loop ps l2 [] [] w2))"
    by (rule keeps_files_loop)
  from assms nz z have "t = Some ?d" and "w1 = snd (files_loop ps l2 [] [] w2)"
    by (auto simp: try_block_def mkdtemp_def split: prod.splits)
  with k1 k2 keeps_trans show "t = Some ?d \<and> keeps ?w0 w1" by blast
qed

lemma dict_set_not_empty: "dict_set d k v \<noteq> []"
  by (cases d) (auto split: if_splits)

lemma files_loop_results:
  "(res = []) = (all = []) \<Longrightarrow>
   (fst (fst (files_loop ps lfs res all w)) = []) = (snd (fst (files_loop ps lfs res all w)) = [])"
proof (induction lfs arbitrary: res all w)
  case Nil
  then show ?case by simp
next
  case (Cons p lfs)
  obtain fl w' where f: "filter_log_file w p ps = (fl, w')" by (cases "filter_log_file w p ps")
  show ?case
  proof (cases "fl \<noteq> []")
    case True
    have "(dict_set res (basename p) fl = []) = (all @ fl = [])"
      using True by (simp add: dict_set_not_empty)
    from Cons.IH[OF this] f True show ?thesis by simp
  next
    case False
    from Cons.IH[OF Cons.prems] f False show ?thesis by simp
  qed
qed

lemma try_block_results:
  "(fst (fst (snd (try_block ps logs zips w))) = [])
     = (snd (fst (snd (try_block ps logs zips w))) = [])"
  by (auto simp: try_block_def files_loop_results split: prod.splits)

lemma reports_finally_block: "reports (finally_block t w) = reports w"
  by (simp add: finally_block_def rmtree_def emit_def split: option.splits)

lemma stdout_finally_block: "prefix (stdout w) (stdout (finally_block t w))"
  by (simp add: finally_block_def rmtree_def emit_def split: option.splits)

lemma counters_save_text:
  "mkdtemp_calls (save_results_as_text ls out w) = mkdtemp_calls w
   \<and> rmtree_calls (save_results_as_text ls out w) = rmtree_calls w
   \<and> files (save_results_as_text ls out w) = files w
   \<and> dirs (save_results_as_text ls out w) = dirs w
   \<and> prefix (stdout w) (stdout (save_results_as_text ls out w))"
  by (simp add: save_results_as_text_def emit_def)

lemma counters_save_html:
  "mkdtemp_calls (save_results_as_html ls out hw w) = mkdtemp_calls w
   \<and> rmtree_calls (save_results_as_html ls out hw w) = rmtree_calls w
   \<and> files (save_results_as_html ls out hw w) = files w
   \<and> dirs (save_results_as_html ls out hw w) = dirs w
   \<and> prefix (stdout w) (stdout (save_results_as_html ls out hw w))"
  by (simp add: save_results_as_html_def emit_def split: sum.splits)

lemma zip_loop_processing:
  "z \<in> set zs \<Longrightarrow> ProcessingZip (basename z) \<in> set (stdout (snd (zip_loop d zs logs w)))"
proof (induction zs arbitrary: logs w)
  case Nil
  then show ?case by simp
next
  case (Cons y zs)
  let ?w0 = "emit (ProcessingZip (basename y)) w"
  obtain ex w' where e: "extract_log_files_from_zip y d ?w0 = (ex, w')"
    by (cases "extract_log_files_from_zip y d ?w0")
  have fin: "snd (zip_loop d (y # zs) logs w) = snd (zip_loop d zs (logs @ ex) w')"
    using e by simp
  show ?case
  proof (cases "z = y")
    case True
    have "keeps ?w0 w'" using keeps_extract[of ?w0 y d] e by simp
    then have "keeps ?w0 (snd (zip_loop d zs (logs @ ex) w'))"
      using keeps_zip_loop keeps_trans by blast
    then have "prefix (stdout ?w0) (stdout (snd (zip_loop d zs (logs @ ex) w')))"
      by (simp add: keeps_def)
    then have "set (stdout ?w0) \<subseteq> set (stdout (snd (zip_loop d zs (logs @ ex) w')))"
      by (rule set_mono_prefix)
    then show ?thesis using True fin by (auto simp: emit_def)
  next
    case False
    with Cons.prems have "z \<in> set zs" by simp
    from Cons.IH[OF this, where logs="logs @ ex" and w=w'] fin show ?thesis by simp
  qed
qed

lemma try_block_processing:
  assumes "try_block ps logs zips w = (t, ra, w1)" and "z \<in> set zips"
  shows "ProcessingZip (basename z) \<in> set (stdout w1)"
proof -
  from assms(2) have nz: "zips \<noteq> []" by auto
  let ?d = "CHR ''/'' # tmp_rel w"
  let ?w0 = "emit (CreatedTempDir ?d) (snd (mkdtemp w))"
  obtain l2 w2 where zl: "zip_loop ?d zips logs ?w0 = (l2, w2)"
    by (cases "zip_loop ?d zips logs ?w0")
  have a: "ProcessingZip (basename z) \<in> set (stdout w2)"
    using zip_loop_processing[OF assms(2), of ?d logs ?w0] zl by simp
  from assms(1) nz zl have "w1 = snd (files_loop ps l2 [] [] w2)"
    by (auto simp: try_block_def mkdtemp_def split: prod.splits)
  then have "keeps w2 w1" using keeps_files_loop by simp
  then have "set (stdout w2) \<subseteq> set (stdout w1)"
    by (simp add: keeps_def set_mono_prefix)
  with a show ?thesis by blast
qed

lemma process_listing_fails:
  "listing w F = None \<Longrightarrow>
   process_all_log_files F K ot oh hw pz w = (Inl ListdirError, w)"
  unfolding process_all_log_files_def compile_keyword_patterns_lits
  by (simp only: option.case)

lemma process_nothing_found:
  "listing w F = Some names \<Longrightarrow> discover_logs w F names = [] \<Longrightarrow>
   discover_zips w F names pz = [] \<Longrightarrow>
   process_all_log_files F K ot oh hw pz w = (Inr [], emit NoFilesFound w)"
  unfolding process_all_log_files_def compile_keyword_patterns_lits Let_def
  by (simp only: option.case simp_thms if_True)

lemma process_unfold:
  assumes l: "listing w F = Some names"
    and ne: "\<not> (discover_logs w F names = [] \<and> discover_zips w F names pz = [])"
    and tb: "try_block (map (\<lambda>k. Pattern (map Lit k) True) K) (discover_logs w F names)
               (discover_zips w F names pz)
               (emit (FoundFiles (length (discover_logs w F names))
                        (length (discover_zips w F names pz))) w) = (t, (res, all), w1)"
  shows "process_all_log_files F K ot oh hw pz w =
           (Inr res,
            if all \<noteq> []
            then save_results_as_html all oh hw (save_results_as_text all ot (finally_block t w1))
            else finally_block t w1)"
proof -
  from ne have c: "(discover_logs w F names = [] \<and> discover_zips w F names pz = []) = False"
    by simp
  show ?thesis
    unfolding process_all_log_files_def Let_def compile_keyword_patterns_lits
    by (simp only: option.case l c if_False tb prod.case) (simp only: if_distrib[of "Pair (Inr res)"] split: if_splits)
qed

text \<open>
  C8. In every run, \<open>mkdtemp\<close> is called once if at least one container file is
  discovered and not at all otherwise, and \<open>rmtree\<close> is called exactly as often; when
  the scratch directory was made, the run returns normally with the directory and
  everything inside it gone, and every discovered container has been processed,
  whatever failed while extracting another.
\<close>

theorem scratch_directory_lifecycle:
  "(case listing w F of
      None \<Rightarrow>
        mkdtemp_calls (snd (process_all_log_files F K ot oh hw pz w)) = mkdtemp_calls w
        \<and> rmtree_calls (snd (process_all_log_files F K ot oh hw pz w)) = rmtree_calls w
    | Some names \<Rightarrow>
        if discover_zips w F names pz = [] then
          mkdtemp_calls (snd (process_all_log_files F K ot oh hw pz w)) = mkdtemp_calls w
          \<and> rmtree_calls (snd (process_all_log_files F K ot oh hw pz w)) = rmtree_calls w
        else
          mkdtemp_calls (snd (process_all_log_files F K ot oh hw pz w)) = Suc (mkdtemp_calls w)
          \<and> rmtree_calls (snd (process_all_log_files F K ot oh hw pz w)) = Suc (rmtree_calls w)
          \<and> \<not> exists_path (snd (process_all_log_files F K ot oh hw pz w)) (CHR ''/'' # tmp_rel w)
          \<and> empty_dir (snd (process_all_log_files F K ot oh hw pz w)) (CHR ''/'' # tmp_rel w)
          \<and> (\<forall>z\<in>set (discover_zips w F names pz).
                ProcessingZip (basename z)
                  \<in> set (stdout (snd (process_all_log_files F K ot oh hw pz w))))
          \<and> (\<exists>r. fst (process_all_log_files F K ot oh hw pz w) = Inr r))"
proof (cases "listing w F")
  case None
  then show ?thesis
    by (simp add: process_listing_fails)
next
  case (Some names)
  let ?R = "process_all_log_files F K ot oh hw pz w"
  let ?logs = "discover_logs w F names"
  let ?zips = "discover_zips w F names pz"
  let ?w0 = "emit (FoundFiles (length ?logs) (length ?zips)) w"
  let ?ps = "map (\<lambda>k. Pattern (map Lit k) True) K"
  let ?d = "CHR ''/'' # tmp_rel w"
  show ?thesis
  proof (cases "?logs = [] \<and> ?zips = []")
    case True
    with Some show ?thesis
      by (simp add: process_nothing_found emit_def)
  next
    case False
    obtain t y where ty: "try_block ?ps ?logs ?zips ?w0 = (t, y)"
      by (cases "try_block ?ps ?logs ?zips ?w0")
    obtain ra w1 where y: "y = (ra, w1)" by (cases y)
    obtain res all where ra: "ra = (res, all)" by (cases ra)
    have tb: "try_block ?ps ?logs ?zips ?w0 = (t, (res, all), w1)"
      unfolding ty y ra ..
    let ?w2 = "finally_block t w1"
    have R: "?R = (Inr res,
            if all \<noteq> [] then save_results_as_html all oh hw (save_results_as_text all ot ?w2)
            else ?w2)"
      by (rule process_unfold[OF Some False tb])
    have sndR: "snd ?R = (if all \<noteq> []
            then save_results_as_html all oh hw (save_results_as_text all ot ?w2) else ?w2)"
      unfolding R by simp
    have pre: "prefix (stdout ?w2)
        (stdout (save_results_as_html all oh hw (save_results_as_text all ot ?w2)))"
      using counters_save_text[of all ot ?w2]
            counters_save_html[of all oh hw "save_results_as_text all ot ?w2"]
      by (meson prefix_order.trans)
    have same: "mkdtemp_calls (snd ?R) = mkdtemp_calls ?w2"
               "rmtree_calls (snd ?R) = rmtree_calls ?w2"
               "files (snd ?R) = files ?w2" "dirs (snd ?R) = dirs ?w2"
      unfolding sndR by (simp_all add: counters_save_text counters_save_html)
    have out: "set (stdout ?w2) \<subseteq> set (stdout (snd ?R))"
      unfolding sndR using set_mono_prefix[OF pre] by simp
    show ?thesis
    proof (cases "?zips = []")
      case True
      from keeps_try_block(1)[OF tb True] have t: "t = None" and k: "keeps ?w0 w1" by auto
      from t have "?w2 = w1" by (simp add: finally_block_def)
      with k same Some True show ?thesis by (simp add: keeps_def emit_def)
    next
      case nz: False
      from keeps_try_block(2)[OF tb nz]
      have t: "t = Some ?d" and k: "keeps (snd (mkdtemp ?w0)) w1" by (auto simp: emit_def)
      from k have c1: "mkdtemp_calls w1 = Suc (mkdtemp_calls w)"
        and c2: "rmtree_calls w1 = rmtree_calls w" and din: "?d \<in> dirs w1"
        by (auto simp: keeps_def mkdtemp_def emit_def)
      from din have w2: "?w2 = emit (RemovedTempDir ?d) (rmtree ?d w1)"
        using t by (simp add: finally_block_def exists_path_def)
      have g1: "mkdtemp_calls ?w2 = Suc (mkdtemp_calls w)"
        and g2: "rmtree_calls ?w2 = Suc (rmtree_calls w)"
        and g3: "\<not> exists_path ?w2 ?d"
        and g4: "empty_dir ?w2 ?d"
        unfolding w2 using c1 c2
        by (simp_all add: emit_def rmtree_def exists_path_def empty_dir_def)
      have g5: "\<forall>z\<in>set ?zips. ProcessingZip (basename z) \<in> set (stdout (snd ?R))"
      proof
        fix z assume "z \<in> set ?zips"
        from try_block_processing[OF tb this]
        have "ProcessingZip (basename z) \<in> set (stdout w1)" .
        moreover have "set (stdout w1) \<subseteq> set (stdout ?w2)"
          using stdout_finally_block[of w1 t] by (rule set_mono_prefix)
        ultimately show "ProcessingZip (basename z) \<in> set (stdout (snd ?R))"
          using out by blast
      qed
      have g6: "\<exists>r. fst ?R = Inr r" using R by simp
      have e3: "\<not> exists_path (snd ?R) ?d" using g3 same(3,4) by (simp add: exists_path_def)
      have e4: "empty_dir (snd ?R) ?d" using g4 same(3,4) by (simp add: empty_dir_def exists_path_def)
      from Some nz g1 g2 e3 e4 g5 g6 same(1,2) show ?thesis by simp
    qed
  qed
qed

text \<open>A run over a folder with an invalid container and a container whose extraction
  fails partway: the scratch directory is made once and removed once.\<close>

theorem scratch_directory_lifecycle_witness:
  "listing faulty_run_world ''/logs'' = Some [''app.LOG'', ''bad.zip'', ''good.zip'']
   \<and> discover_zips faulty_run_world ''/logs'' [''app.LOG'', ''bad.zip'', ''good.zip''] True
       = [''/logs/bad.zip'', ''/logs/good.zip'']
   \<and> mkdtemp_calls (snd (process_all_log_files ''/logs'' [''CCP: EPK'', ''Configuration file:'']
         ''out.txt'' ''out.html'' (Some default_highlight) True faulty_run_world)) = 1
   \<and> rmtree_calls (snd (process_all_log_files ''/logs'' [''CCP: EPK'', ''Configuration file:'']
         ''out.txt'' ''out.html'' (Some default_highlight) True faulty_run_world)) = 1
   \<and> \<not> exists_path (snd (process_all_log_files ''/logs'' [''CCP: EPK'', ''Configuration file:'']
         ''out.txt'' ''out.html'' (Some default_highlight) True faulty_run_world)) ''/tmp/tmpk3v9''
   \<and> ProcessingZip ''good.zip'' \<in> set (stdout (snd (process_all_log_files ''/logs''
         [''CCP: EPK'', ''Configuration file:''] ''out.txt'' ''out.html''
         (Some default_highlight) True faulty_run_world)))
   \<and> filter is_error (stdout (snd (process_all_log_files ''/logs''
         [''CCP: EPK'', ''Configuration file:''] ''out.txt'' ''out.html''
         (Some default_highlight) True faulty_run_world)))
       = [ErrorNotValidZip ''bad.zip'', ErrorExtracting ''good.zip'']"
proof -
  let ?names = "[''app.LOG'', ''bad.zip'', ''good.zip'']"
  let ?R = "process_all_log_files ''/logs'' [''CCP: EPK'', ''Configuration file:'']
         ''out.txt'' ''out.html'' (Some default_highlight) True faulty_run_world"
  have l: "listing faulty_run_world ''/logs'' = Some ?names"
    by (simp add: faulty_run_world_def empty_world_def)
  have z: "discover_zips faulty_run_world ''/logs'' ?names True
             = [''/logs/bad.zip'', ''/logs/good.zip'']"
    by code_simp
  have t: "tmp_rel faulty_run_world = ''tmp/tmpk3v9''"
    by (simp add: faulty_run_world_def empty_world_def)
  have c: "mkdtemp_calls faulty_run_world = 0" "rmtree_calls faulty_run_world = 0"
    by (simp_all add: faulty_run_world_def empty_world_def)
  have b: "basename ''/logs/good.zip'' = ''good.zip''"
    by code_simp
  have e: "filter is_error (stdout (snd ?R))
             = [ErrorNotValidZip ''bad.zip'', ErrorExtracting ''good.zip'']"
    by code_simp
  from scratch_directory_lifecycle[where w=faulty_run_world and F="''/logs''"
         and K="[''CCP: EPK'', ''Configuration file:'']" and ot="''out.txt''"
         and oh="''out.html''" and hw="Some default_highlight" and pz=True]
  have "mkdtemp_calls (snd ?R) = 1 \<and> rmtree_calls (snd ?R) = 1
        \<and> \<not> exists_path (snd ?R) ''/tmp/tmpk3v9''
        \<and> ProcessingZip (basename ''/logs/good.zip'') \<in> set (stdout (snd ?R))"
    using l z t c by simp
  with l z b e show ?thesis by simp
qed

text \<open>
  C9. When \<open>process_all_log_files\<close> returns no results, which is the case exactly when
  the aggregate Match list of the run is empty, it has written no report: the store of
  written reports is what it was, at the two output paths as everywhere else.
\<close>

theorem no_matches_no_reports:
  "(fst (process_all_log_files F K ot oh hw pz w) = Inr [] \<longrightarrow>
      reports (snd (process_all_log_files F K ot oh hw pz w)) = reports w)
   \<and> ((fst (fst (snd (try_block ps logs zips w))) = [])
        = (snd (fst (snd (try_block ps logs zips w))) = []))"
proof -
  have "reports (snd (process_all_log_files F K ot oh hw pz w)) = reports w"
    if h: "fst (process_all_log_files F K ot oh hw pz w) = Inr []"
  proof (cases "listing w F")
    case None
    then show ?thesis by (simp add: process_listing_fails)
  next
    case (Some names)
    let ?logs = "discover_logs w F names"
    let ?zips = "discover_zips w F names pz"
    let ?w0 = "emit (FoundFiles (length ?logs) (length ?zips)) w"
    let ?ps = "map (\<lambda>k. Pattern (map Lit k) True) K"
    show ?thesis
    proof (cases "?logs = [] \<and> ?zips = []")
      case True
      with Some show ?thesis by (simp add: process_nothing_found emit_def)
    next
      case False
      obtain t y where ty: "try_block ?ps ?logs ?zips ?w0 = (t, y)"
        by (cases "try_block ?ps ?logs ?zips ?w0")
      obtain ra w1 where y: "y = (ra, w1)" by (cases y)
      obtain res all where ra: "ra = (res, all)" by (cases ra)
      have tb: "try_block ?ps ?logs ?zips ?w0 = (t, (res, all), w1)"
        unfolding ty y ra ..
      note R = process_unfold[OF Some False tb, of ot oh hw]
      from h R have "res = []" by simp
      moreover have "(res = []) = (all = [])"
        using try_block_results[of ?ps ?logs ?zips ?w0] tb by simp
      ultimately have all: "all = []" by simp
      have "keeps ?w0 w1 \<or> keeps (snd (mkdtemp ?w0)) w1"
        using keeps_try_block[OF tb] by blast
      then have "reports w1 = reports w"
        by (auto simp: keeps_def mkdtemp_def emit_def)
      with R all show ?thesis by (simp add: reports_finally_block)
    qed
  qed
  then show ?thesis using try_block_results by blast
qed

text \<open>A run over a folder whose only log file has no matching line returns no results
  and leaves both output paths without a report.\<close>

theorem no_matches_no_reports_witness:
  "fst (process_all_log_files ''/logs'' [''CCP: EPK'', ''Configuration file:'']
         ''out.txt'' ''out.html'' (Some default_highlight) True quiet_run_world) = Inr []
   \<and> reports (snd (process_all_log_files ''/logs'' [''CCP: EPK'', ''Configuration file:'']
         ''out.txt'' ''out.html'' (Some default_highlight) True quiet_run_world)) ''out.txt'' = None
   \<and> reports (snd (process_all_log_files ''/logs'' [''CCP: EPK'', ''Configuration file:'']
         ''out.txt'' ''out.html'' (Some default_highlight) True quiet_run_world)) ''out.html'' = None"
proof -
  let ?R = "process_all_log_files ''/logs'' [''CCP: EPK'', ''Configuration file:'']
         ''out.txt'' ''out.html'' (Some default_highlight) True quiet_run_world"
  have h: "fst ?R = Inr []" by code_simp
  have r: "reports quiet_run_world = Map.empty"
    by (simp add: quiet_run_world_def empty_world_def)
  from no_matches_no_reports[where w=quiet_run_world and F="''/logs''"
         and K="[''CCP: EPK'', ''Configuration file:'']" and ot="''out.txt''"
         and oh="''out.html''" and hw="Some default_highlight" and pz=True] h r
  have "reports (snd ?R) = Map.empty" by simp
  with h show ?thesis by simp
qed

section \<open>An invalid container\<close>













section \<open>The Archive Extractor\<close>

text \<open>
  C6. The collision rule of the Archive Extractor renames once, to the base name followed
  by the container's name, and does not look whether that name is taken. When the
  scratch directory holds \<open>x.LOG\<close> already, as it does once an earlier container of the
  same run has put it there, both log members of the container of the example get the
  name \<open>x_b.zip.LOG\<close>: the Extractor returns that one path twice, the member of folder
  \<open>b\<close> has replaced the member of folder \<open>a\<close>, and \<open>x.LOG\<close> is still the file of the
  earlier container.
\<close>

theorem second_collision_not_disambiguated:
  "fst (extract_log_files_from_zip ''/logs/b.zip'' ''/tmp/t'' occupied_scratch_world)
     = [''/tmp/t/x_b.zip.LOG'', ''/tmp/t/x_b.zip.LOG'']
   \<and> map_option content
        (files (snd (extract_log_files_from_zip ''/logs/b.zip'' ''/tmp/t'' occupied_scratch_world))
           ''/tmp/t/x_b.zip.LOG'')
     = Some (Some ''from b'')
   \<and> map_option content
        (files (snd (extract_log_files_from_zip ''/logs/b.zip'' ''/tmp/t'' occupied_scratch_world))
           ''/tmp/t/x.LOG'')
     = Some (Some ''earlier'')
   \<and> fst (zip_loop ''/tmp/t'' [''/logs/a.zip'', ''/logs/b.zip''] [] two_containers_world)
     = [''/tmp/t/x.LOG'', ''/tmp/t/x_b.zip.LOG'', ''/tmp/t/x_b.zip.LOG'']
   \<and> map_option content
        (files (snd (zip_loop ''/tmp/t'' [''/logs/a.zip'', ''/logs/b.zip''] [] two_containers_world))
           ''/tmp/t/x_b.zip.LOG'')
     = Some (Some ''from b'')
   \<and> map_option content
        (files (snd (zip_loop ''/tmp/t'' [''/logs/a.zip'', ''/logs/b.zip''] [] two_containers_world))
           ''/tmp/t/x.LOG'')
     = Some (Some ''earlier'')"
  by code_simp

lemma join_relative:
  "tmp \<noteq> [] \<Longrightarrow> \<not> is_sep (last tmp) \<Longrightarrow> n = [] \<or> \<not> is_sep (hd n) \<Longrightarrow>
   join tmp n = tmp @ ''/'' @ n"
  by (auto simp: join_def)

lemma inside_relative: "n \<noteq> [] \<Longrightarrow> inside tmp (tmp @ ''/'' @ n)"
  by (simp add: inside_def)

lemma dirname_relative:
  assumes "tmp \<noteq> []" and "\<not> is_sep (last tmp)" and "\<forall>c\<in>set n. \<not> is_sep c"
  shows "dirname (tmp @ ''/'' @ n) = tmp"
proof -
  have s: "is_sep (CHR ''/'')" by (simp add: is_sep_def)
  have "dropWhile (\<lambda>c. \<not> is_sep c) (rev (tmp @ ''/'' @ n)) = CHR ''/'' # rev tmp"
    using assms(3) s by (simp add: dropWhile_append3)
  then have head: "rev (dropWhile (\<lambda>c. \<not> is_sep c) (rev (tmp @ ''/'' @ n))) = tmp @ ''/''"
    by simp
  have ne: "rev tmp \<noteq> []" and h: "\<not> is_sep (hd (rev tmp))"
    using assms(1,2) by (simp_all add: hd_rev)
  then have d: "dropWhile is_sep (rev tmp) = rev tmp"
    by (cases "rev tmp") simp_all
  have "last tmp \<in> set tmp" using assms(1) by simp
  with assms(2) have na: "\<not> list_all is_sep (tmp @ ''/'')"
    by (auto simp: list_all_iff)
  show ?thesis
    unfolding dirname_def head Let_def using na s d by simp
qed

lemma basename_no_sep: "\<forall>c\<in>set (basename p). \<not> is_sep c"
  unfolding basename_def using set_takeWhileD by fastforce

lemma example_names:
  "filter is_log_name [''a/x.LOG'', ''b/x.LOG'', ''readme.txt''] = [''a/x.LOG'', ''b/x.LOG'']"
  "filter (\<lambda>i. is_sep (''a/x.LOG'' ! i)) [0..<length ''a/x.LOG''] = [1]"
  "filter (\<lambda>i. is_sep (''b/x.LOG'' ! i)) [0..<length ''b/x.LOG''] = [1]"
  "dirname ''a/x.LOG'' = ''a''" "dirname ''b/x.LOG'' = ''b''"
  "basename ''a/x.LOG'' = ''x.LOG''" "basename ''b/x.LOG'' = ''x.LOG''"
  "splitext ''x.LOG'' = (''x'', ''.LOG'')" "splitext ''b/x.LOG'' = (''b/x'', ''.LOG'')"
  "is_sep (CHR ''a'') = False" "is_sep (CHR ''b'') = False" "is_sep (CHR ''x'') = False"
  by code_simp+

text \<open>
  The rule does what it is meant to do when the scratch directory is empty as the
  Archive Extractor is called, as it is for the first container of a run. For a
  container holding exactly the members \<open>a/x.LOG\<close>, \<open>b/x.LOG\<close> and \<open>readme.txt\<close>, the
  two log members sound, the Extractor then returns exactly two paths, \<open>x.LOG\<close> and
  \<open>x_\<close> followed by the container's base name and \<open>.LOG\<close>, both directly in the scratch
  directory and different from each other; the first holds the member of folder \<open>a\<close>
  and the second that of folder \<open>b\<close>, and no other file is in the scratch directory
  afterwards, so that \<open>readme.txt\<close> is not extracted.
\<close>

lemma extraction_into_empty_directory:
  assumes f: "files w zp = Some f"
    and m: "members f = Some
        [\<lparr>member_name = ''a/x.LOG'', member_data = da, member_state = Sound\<rparr>,
         \<lparr>member_name = ''b/x.LOG'', member_data = db, member_state = Sound\<rparr>,
         \<lparr>member_name = ''readme.txt'', member_data = dr, member_state = sr\<rparr>]"
    and e: "empty_dir w tmp"
    and n: "tmp \<noteq> []" "\<not> is_sep (last tmp)"
  shows "fst (extract_log_files_from_zip zp tmp w)
           = [join tmp ''x.LOG'', join tmp (''x_'' @ basename zp @ ''.LOG'')]
    \<and> join tmp ''x.LOG'' \<noteq> join tmp (''x_'' @ basename zp @ ''.LOG'')
    \<and> dirname (join tmp ''x.LOG'') = tmp
    \<and> dirname (join tmp (''x_'' @ basename zp @ ''.LOG'')) = tmp
    \<and> files (snd (extract_log_files_from_zip zp tmp w)) (join tmp ''x.LOG'')
        = Some \<lparr>content = Some da, members = None\<rparr>
    \<and> files (snd (extract_log_files_from_zip zp tmp w))
          (join tmp (''x_'' @ basename zp @ ''.LOG''))
        = Some \<lparr>content = Some db, members = None\<rparr>
    \<and> (\<forall>p. inside tmp p \<and> files (snd (extract_log_files_from_zip zp tmp w)) p \<noteq> None
           \<longrightarrow> p = join tmp ''x.LOG'' \<or> p = join tmp (''x_'' @ basename zp @ ''.LOG''))"
proof -
  let ?zb = "basename zp"
  let ?fa = "\<lparr>content = Some da, members = None\<rparr>"
  let ?fb = "\<lparr>content = Some db, members = None\<rparr>"
  let ?ms = "[\<lparr>member_name = ''a/x.LOG'', member_data = da, member_state = Sound\<rparr>,
         \<lparr>member_name = ''b/x.LOG'', member_data = db, member_state = Sound\<rparr>,
         \<lparr>member_name = ''readme.txt'', member_data = dr, member_state = sr\<rparr>]"
  define pa where "pa = tmp @ ''/'' @ ''a/x.LOG''"
  define pb where "pb = tmp @ ''/'' @ ''b/x.LOG''"
  define da' where "da' = tmp @ ''/'' @ ''a''"
  define db' where "db' = tmp @ ''/'' @ ''b''"
  define p1 where "p1 = tmp @ ''/'' @ ''x.LOG''"
  define p2 where "p2 = tmp @ ''/'' @ ''x_'' @ ?zb @ ''.LOG''"
  note ps = pa_def pb_def da'_def db'_def p1_def p2_def
  have J: "join tmp ''a/x.LOG'' = pa" "join tmp ''b/x.LOG'' = pb" "join tmp ''a'' = da'"
    "join tmp ''b'' = db'" "join tmp ''x.LOG'' = p1" "join tmp (''x_'' @ ?zb @ ''.LOG'') = p2"
    using n by (simp_all add: join_relative ps example_names)
  have E: "\<And>k. k \<noteq> [] \<Longrightarrow> files w (tmp @ ''/'' @ k) = None \<and> tmp @ ''/'' @ k \<notin> dirs w"
    using e inside_relative by (auto simp: empty_dir_def exists_path_def)
  have Ef: "files w pa = None" "files w pb = None" "files w da' = None" "files w db' = None"
    "files w p1 = None" "files w p2 = None"
    using E by (simp_all add: ps)
  have Ed: "pa \<notin> dirs w" "pb \<notin> dirs w" "da' \<notin> dirs w" "db' \<notin> dirs w"
    "p1 \<notin> dirs w" "p2 \<notin> dirs w"
    using E by (simp_all add: ps)
  have D: "pa \<noteq> pb" "pa \<noteq> da'" "pa \<noteq> db'" "pa \<noteq> p1" "pa \<noteq> p2"
    "pb \<noteq> da'" "pb \<noteq> db'" "pb \<noteq> p1" "pb \<noteq> p2"
    "da' \<noteq> db'" "da' \<noteq> p1" "da' \<noteq> p2" "db' \<noteq> p1" "db' \<noteq> p2" "p1 \<noteq> p2"
    by (simp_all add: ps)
  have sa: "pa = da' @ ''/'' @ ''x.LOG''" and sb: "pb = db' @ ''/'' @ ''x.LOG''"
    by (simp_all add: ps)
  have dn: "dirname pa = da'" "dirname pb = db'"
    unfolding sa sb by (rule dirname_relative; simp add: ps is_sep_def)+
  have g: "getinfo ?ms ''a/x.LOG'' = Some \<lparr>member_name = ''a/x.LOG'', member_data = da, member_state = Sound\<rparr>"
    "getinfo ?ms ''b/x.LOG'' = Some \<lparr>member_name = ''b/x.LOG'', member_data = db, member_state = Sound\<rparr>"
    by (simp_all add: getinfo_def)
  have pd: "parent_dirs tmp ''a/x.LOG'' = [da']" "parent_dirs tmp ''b/x.LOG'' = [db']"
    unfolding parent_dirs_def example_names(2,3) by (simp_all add: J)
  define w0 where "w0 = emit (FoundLogFilesInZip 2 ?zb) w"
  define w1 where "w1 = w0\<lparr>files := (files w0)(pa \<mapsto> ?fa), dirs := dirs w0 \<union> {da'}\<rparr>"
  define w2 where "w2 = w1\<lparr>files := ((files w1)(pa := None))(p1 \<mapsto> ?fa)\<rparr>"
  define w3 where "w3 = w2\<lparr>files := (files w2)(pb \<mapsto> ?fb), dirs := dirs w2 \<union> {db'}\<rparr>"
  define w4 where "w4 = w3\<lparr>files := ((files w3)(pb := None))(p2 \<mapsto> ?fb)\<rparr>"
  have f0: "files w0 = files w" "dirs w0 = dirs w" by (simp_all add: w0_def emit_def)
  have x0: "\<not> exists_path w0 da'"
    by (simp add: exists_path_def f0 Ef Ed)
  have z1: "zip_extract ?ms ''a/x.LOG'' tmp w0 = (None, w1)"
    using D by (simp add: zip_extract_def write_target_def g pd J dn x0 f0 Ef Ed w1_def)
  have x1: "\<not> exists_path w1 p1"
    using D by (simp add: exists_path_def w1_def f0 Ef Ed)
  have m1: "move pa p1 w1 = (None, w2)"
    using D by (simp add: move_def w1_def w2_def f0 Ed)
  have o1: "extract_one ?ms zp tmp ''a/x.LOG'' w0 = (Inr p1, w2)"
    by (simp add: extract_one_def z1 example_names J x1 m1)
  have x2': "\<not> exists_path w2 db'"
    using D by (simp add: exists_path_def w2_def w1_def f0 Ef Ed)
  have n2: "files w2 db' = None" "pb \<notin> dirs w2"
    using D by (simp_all add: w2_def w1_def f0 Ef Ed)
  have z2: "zip_extract ?ms ''b/x.LOG'' tmp w2 = (None, w3)"
    using D by (simp add: zip_extract_def write_target_def g pd J dn x2' n2 w3_def)
  have x2: "exists_path w3 p1"
    using D by (simp add: exists_path_def w3_def w2_def)
  have m2: "move pb p2 w3 = (None, w4)"
    using D by (simp add: move_def w4_def w3_def w2_def w1_def f0 Ed)
  have J6: "join tmp (CHR ''x'' # CHR ''_'' # ?zb @ ''.LOG'') = p2"
    using J(6) by simp
  have o2: "extract_one ?ms zp tmp ''b/x.LOG'' w2 = (Inr p2, w4)"
    using x2 by (simp add: extract_one_def z2 example_names J J6 m2 Let_def)
  have mn: "map member_name ?ms = [''a/x.LOG'', ''b/x.LOG'', ''readme.txt'']"
    by simp
  have lf: "filter is_log_name (map member_name ?ms) = [''a/x.LOG'', ''b/x.LOG'']"
    unfolding mn by (rule example_names(1))
  have loop: "extract_loop ?ms zp tmp [''a/x.LOG'', ''b/x.LOG''] [] w0 = ([p1, p2], w4)"
    by (simp add: o1 o2)
  have "extract_log_files_from_zip zp tmp w
          = extract_loop ?ms zp tmp [''a/x.LOG'', ''b/x.LOG''] [] w0"
    unfolding extract_log_files_from_zip_def f m option.case lf Let_def w0_def
    by (simp add: numeral_2_eq_2 del: extract_loop.simps)
  with loop have R: "extract_log_files_from_zip zp tmp w = ([p1, p2], w4)"
    by simp
  have F4: "\<And>p. files w4 p = (if p = p2 then Some ?fb else if p = p1 then Some ?fa
                                else if p = pa \<or> p = pb then None else files w p)"
    using D by (auto simp: w4_def w3_def w2_def w1_def f0)
  have only: "\<forall>p. inside tmp p \<and> files w4 p \<noteq> None \<longrightarrow> p = p1 \<or> p = p2"
  proof (intro allI impI)
    fix p assume a: "inside tmp p \<and> files w4 p \<noteq> None"
    show "p = p1 \<or> p = p2"
    proof (rule ccontr)
      assume "\<not> (p = p1 \<or> p = p2)"
      with a F4[of p] have "files w p \<noteq> None" by (auto split: if_splits)
      with a e show False by (auto simp: empty_dir_def exists_path_def)
    qed
  qed
  have d1: "dirname p1 = tmp"
    unfolding p1_def using n by (intro dirname_relative) (simp_all add: is_sep_def)
  have d2: "dirname p2 = tmp"
    unfolding p2_def using n basename_no_sep[of zp]
    by (intro dirname_relative) (auto simp: is_sep_def)
  show ?thesis
    unfolding J R using D d1 d2 only by (simp add: F4)
qed

text \<open>
  An extraction that raises leaves what it has made by then: for a member in a folder
  whose check sum fails after one character, the folder and a file of one character.
\<close>

lemma failing_extraction_leaves_its_parts:
  "fst (zip_extract [\<lparr>member_name = ''sub/two.log'', member_data = ''xyz'', member_state = BadCrc 1\<rparr>]
          ''sub/two.log'' ''/tmp/t'' (empty_world\<lparr>dirs := {''/tmp/t''}\<rparr>))
     = Some BadZipFile
   \<and> map_option content
        (files (snd (zip_extract
                       [\<lparr>member_name = ''sub/two.log'', member_data = ''xyz'', member_state = BadCrc 1\<rparr>]
                       ''sub/two.log'' ''/tmp/t'' (empty_world\<lparr>dirs := {''/tmp/t''}\<rparr>)))
           ''/tmp/t/sub/two.log'')
     = Some (Some ''x'')
   \<and> ''/tmp/t/sub'' \<in> dirs (snd (zip_extract
                       [\<lparr>member_name = ''sub/two.log'', member_data = ''xyz'', member_state = BadCrc 1\<rparr>]
                       ''sub/two.log'' ''/tmp/t'' (empty_world\<lparr>dirs := {''/tmp/t''}\<rparr>)))"
  by code_simp

end
